theory Spec2Isabelle
  imports Main "HOL-Library.Word"
begin

unbundle bit_operations_syntax

section \<open>Data model\<close>

text \<open>
  The producer side of memglass (\<^verbatim>\<open>src/src/allocator.cpp\<close>) is embedded as pure
  functions on an explicit state. Machine integers keep their width: \<^verbatim>\<open>uint32_t\<close> is
  \<open>32 word\<close>, \<^verbatim>\<open>uint64_t\<close> and \<^verbatim>\<open>size_t\<close> are \<open>64 word\<close>, so every sum and
  product wraps as it does in the program. The three managers take their mutex for the
  whole of every public call, so each call is one atomic transition of the state.
\<close>

type_synonym u32 = "32 word"
type_synonym u64 = "64 word"

text \<open>\<^verbatim>\<open>enum class ObjectState\<close>; the declaration is in \<^verbatim>\<open>types.hpp\<close>.\<close>

datatype ObjectState = Alive | Destroyed

text \<open>
  Modelled from the spec: \<^verbatim>\<open>types.hpp\<close> is absent; the data model gives the stored
  codes as \<^verbatim>\<open>Alive=1 | Destroyed=2\<close>. This is \<^verbatim>\<open>static_cast<uint32_t>(ObjectState::X)\<close>.
\<close>

fun ObjectState_u32 :: "ObjectState \<Rightarrow> u32" where
  "ObjectState_u32 Alive = 1"
| "ObjectState_u32 Destroyed = 2"

text \<open>
  \<^verbatim>\<open>ObjectEntry\<close>: the fields that \<^verbatim>\<open>register_object\<close> writes. \<open>oe_label\<close> is the
  content of the inline character array.
\<close>

record ObjectEntry =
  oe_state :: u32
  oe_type_id :: u32
  oe_region_id :: u64
  oe_offset :: u64
  oe_generation :: u32
  oe_label :: string

text \<open>
  \<^verbatim>\<open>TelemetryHeader\<close>: the fields the managers read and write. The offsets of the
  three pools only locate the arrays inside the header mapping; the arrays themselves
  are addressed through \<open>entry_ptr\<close> below.
\<close>

record TelemetryHeader =
  sequence :: u64
  first_region_id :: u64
  first_overflow_region_id :: u64
  object_dir_capacity :: u32
  object_count :: u32
  type_registry_capacity :: u32
  type_count :: u32
  field_entries_capacity :: u32
  field_count :: u32

record RegionDescriptor =
  rd_region_id :: u64
  rd_size :: u64
  rd_used :: u64
  rd_next_region_id :: u64
  rd_shm_name :: string

text \<open>
  \<^verbatim>\<open>RegionManager::Region\<close>. \<open>r_shm\<close> is \<^verbatim>\<open>shm.data()\<close>, the address the mapping
  starts at; the descriptor lives at that address, so it is kept inside the region.
\<close>

record Region =
  r_shm :: u64
  r_id :: u64
  r_descriptor :: RegionDescriptor

record MetadataOverflowDescriptor =
  mo_region_id :: u64
  mo_next_region_id :: u64
  mo_object_entry_offset :: u32
  mo_object_entry_capacity :: u32
  mo_object_entry_count :: u32
  mo_type_entry_offset :: u32
  mo_type_entry_capacity :: u32
  mo_type_entry_count :: u32
  mo_field_entry_offset :: u32
  mo_field_entry_capacity :: u32
  mo_field_entry_count :: u32
  mo_shm_name :: string

record OverflowRegion =
  o_shm :: u64
  o_id :: u64
  o_descriptor :: MetadataOverflowDescriptor

text \<open>
  A pointer to an entry of a pool (\<^verbatim>\<open>&entries[i]\<close>): slot \<open>i\<close> of the pool in the header
  mapping, or slot \<open>i\<close> of the matching sub-pool of the overflow region at position \<open>k\<close>
  of \<^verbatim>\<open>overflow_regions_\<close>. Every mapping is a separate piece of memory, so two
  different \<open>entry_ptr\<close> values never alias.
\<close>

datatype entry_ptr = InHeader nat | InOverflow nat nat

record Config =
  initial_region_size :: u64
  max_region_size :: u64
  overflow_region_size :: u64

text \<open>
  What \<^verbatim>\<open>allocator.cpp\<close> uses and other files declare, taken as parameters: the
  configuration of the context, the \<^verbatim>\<open>sizeof\<close> of the structs of \<^verbatim>\<open>types.hpp\<close>,
  \<^verbatim>\<open>ObjectEntry::set_label\<close> (from the old content of the label array and the argument
  to the new content), the two name functions of \<^verbatim>\<open>detail\<close>, and
  \<^verbatim>\<open>SharedMemory::create\<close>, which yields the address of the new mapping or fails.
\<close>

record Env =
  config :: Config
  sizeof_RegionDescriptor :: u64
  sizeof_MetadataOverflowDescriptor :: u64
  sizeof_ObjectEntry :: u64
  sizeof_TypeEntry :: u64
  sizeof_FieldEntry :: u64
  set_label :: "string \<Rightarrow> string \<Rightarrow> string"
  make_region_shm_name :: "string \<Rightarrow> u64 \<Rightarrow> string"
  make_overflow_shm_name :: "string \<Rightarrow> u64 \<Rightarrow> string"
  shm_create :: "string \<Rightarrow> u64 \<Rightarrow> u64 option"

text \<open>
  The state of one producer: the header, the private members of the three managers
  (\<^verbatim>\<open>allocator.hpp\<close>), and the object entries in shared memory.
\<close>

record State =
  header :: TelemetryHeader
  rm_session_name :: string
  regions :: "Region list"
  next_region_id :: u64
  current_region_size :: u64
  mm_session_name :: string
  overflow_regions :: "OverflowRegion list"
  next_overflow_id :: u64
  ptr_to_entry :: "u64 \<rightharpoonup> entry_ptr"
  objects :: "entry_ptr \<Rightarrow> ObjectEntry"

section \<open>RegionManager\<close>

text \<open>\<^verbatim>\<open>regions_.back()->descriptor->...\<close>: an update of the last region's descriptor.\<close>

definition update_back :: "('a \<Rightarrow> 'a) \<Rightarrow> 'a list \<Rightarrow> 'a list" where
  "update_back f xs = (if xs = [] then [] else butlast xs @ [f (last xs)])"

definition set_next_region_id :: "u64 \<Rightarrow> Region \<Rightarrow> Region" where
  "set_next_region_id n r = r\<lparr>r_descriptor := (r_descriptor r)\<lparr>rd_next_region_id := n\<rparr>\<rparr>"

definition set_used :: "u64 \<Rightarrow> Region \<Rightarrow> Region" where
  "set_used n r = r\<lparr>r_descriptor := (r_descriptor r)\<lparr>rd_used := n\<rparr>\<rparr>"

definition bump_sequence :: "State \<Rightarrow> State" where
  "bump_sequence s = s\<lparr>header := (header s)\<lparr>sequence := sequence (header s) + 1\<rparr>\<rparr>"

text \<open>
  \<^verbatim>\<open>RegionManager::create_region\<close>. The id is taken (\<^verbatim>\<open>next_region_id_++\<close>) before the
  mapping is created, so a failed creation uses up an id.
\<close>

definition create_region :: "Env \<Rightarrow> u64 \<Rightarrow> State \<Rightarrow> Region option \<times> State" where
  "create_region env sz s =
     (let rid = next_region_id s;
          s1 = s\<lparr>next_region_id := rid + 1\<rparr>;
          shm_name = make_region_shm_name env (rm_session_name s1) rid;
          total_size = sizeof_RegionDescriptor env + sz
      in case shm_create env shm_name total_size of
           None \<Rightarrow> (None, s1)
         | Some data \<Rightarrow>
             let region = \<lparr>r_shm = data, r_id = rid,
                   r_descriptor = \<lparr>rd_region_id = rid, rd_size = total_size,
                     rd_used = sizeof_RegionDescriptor env, rd_next_region_id = 0,
                     rd_shm_name = shm_name\<rparr>\<rparr>
             in (Some region,
                 s1\<lparr>regions := update_back (set_next_region_id rid) (regions s1) @ [region]\<rparr>))"

text \<open>\<^verbatim>\<open>RegionManager::init\<close>.\<close>

definition init :: "Env \<Rightarrow> string \<Rightarrow> u64 \<Rightarrow> State \<Rightarrow> bool \<times> State" where
  "init env session_name initial_size s =
     (let s1 = s\<lparr>rm_session_name := session_name, current_region_size := initial_size\<rparr>
      in case create_region env initial_size s1 of
           (None, s2) \<Rightarrow> (False, s2)
         | (Some region, s2) \<Rightarrow>
             (True, s2\<lparr>header := (header s2)\<lparr>first_region_id := r_id region\<rparr>\<rparr>))"

definition current_region :: "State \<Rightarrow> Region option" where
  "current_region s = (if regions s = [] then None else Some (last (regions s)))"

text \<open>\<^verbatim>\<open>(current + alignment - 1) & ~(alignment - 1)\<close> on \<^verbatim>\<open>uint64_t\<close>.\<close>

definition align_up :: "u64 \<Rightarrow> u64 \<Rightarrow> u64" where
  "align_up current alignment = (current + alignment - 1) AND NOT (alignment - 1)"

text \<open>
  \<^verbatim>\<open>RegionManager::allocate\<close>. The result is the returned pointer, \<open>None\<close> for
  \<^verbatim>\<open>nullptr\<close>. In both branches \<^verbatim>\<open>region\<close> is the last element of \<^verbatim>\<open>regions_\<close> when
  \<^verbatim>\<open>used\<close> is stored.
\<close>

definition allocate :: "Env \<Rightarrow> u64 \<Rightarrow> u64 \<Rightarrow> State \<Rightarrow> u64 option \<times> State" where
  "allocate env sz alignment s =
     (case current_region s of
        None \<Rightarrow> (None, s)
      | Some region \<Rightarrow>
          let current = rd_used (r_descriptor region);
              aligned = align_up current alignment;
              new_used = aligned + sz
          in if new_used > rd_size (r_descriptor region) then
               let new_size = max (sz + sizeof_RegionDescriptor env) (current_region_size s * 2);
                   new_size' = min new_size (max_region_size (config env));
                   s1 = s\<lparr>current_region_size := new_size'\<rparr>
               in case create_region env new_size' s1 of
                    (None, s2) \<Rightarrow> (None, s2)
                  | (Some region', s2) \<Rightarrow>
                      let s3 = bump_sequence s2;
                          current' = rd_used (r_descriptor region');
                          aligned' = align_up current' alignment;
                          new_used' = aligned' + sz
                      in (Some (r_shm region' + aligned'),
                          s3\<lparr>regions := update_back (set_used new_used') (regions s3)\<rparr>)
             else (Some (r_shm region + aligned),
                   s\<lparr>regions := update_back (set_used new_used) (regions s)\<rparr>))"

text \<open>
  \<^verbatim>\<open>RegionManager::get_location\<close>: the first region whose mapping
  \<^verbatim>\<open>[base, base + size)\<close> holds the pointer, with the two out-parameters as the result.
\<close>

fun get_location_loop :: "Region list \<Rightarrow> u64 \<Rightarrow> (u64 \<times> u64) option" where
  "get_location_loop [] p = None"
| "get_location_loop (region # rest) p =
     (let base = r_shm region;
          end = base + rd_size (r_descriptor region)
      in if p \<ge> base \<and> p < end then Some (r_id region, p - base)
         else get_location_loop rest p)"

definition get_location :: "State \<Rightarrow> u64 \<Rightarrow> (u64 \<times> u64) option" where
  "get_location s p = get_location_loop (regions s) p"

section \<open>MetadataManager\<close>

definition set_overflow_next_region_id :: "u64 \<Rightarrow> OverflowRegion \<Rightarrow> OverflowRegion" where
  "set_overflow_next_region_id n r =
     r\<lparr>o_descriptor := (o_descriptor r)\<lparr>mo_next_region_id := n\<rparr>\<rparr>"

definition set_object_entry_count :: "u32 \<Rightarrow> OverflowRegion \<Rightarrow> OverflowRegion" where
  "set_object_entry_count n r =
     r\<lparr>o_descriptor := (o_descriptor r)\<lparr>mo_object_entry_count := n\<rparr>\<rparr>"

definition set_type_entry_count :: "u32 \<Rightarrow> OverflowRegion \<Rightarrow> OverflowRegion" where
  "set_type_entry_count n r =
     r\<lparr>o_descriptor := (o_descriptor r)\<lparr>mo_type_entry_count := n\<rparr>\<rparr>"

definition set_field_entry_count :: "u32 \<Rightarrow> OverflowRegion \<Rightarrow> OverflowRegion" where
  "set_field_entry_count n r =
     r\<lparr>o_descriptor := (o_descriptor r)\<lparr>mo_field_entry_count := n\<rparr>\<rparr>"

text \<open>\<^verbatim>\<open>MetadataManager::init\<close>.\<close>

definition metadata_init :: "string \<Rightarrow> State \<Rightarrow> bool \<times> State" where
  "metadata_init session_name s = (True, s\<lparr>mm_session_name := session_name\<rparr>)"

text \<open>
  \<^verbatim>\<open>MetadataManager::create_overflow_region\<close>. The capacities are computed in
  \<^verbatim>\<open>size_t\<close> and cast to \<^verbatim>\<open>uint32_t\<close>; the sizes are \<^verbatim>\<open>uint32_t * size_t\<close>, computed
  in \<^verbatim>\<open>size_t\<close>. As in \<^verbatim>\<open>create_region\<close>, the id is used up even when the mapping
  cannot be created.
\<close>

definition create_overflow_region :: "Env \<Rightarrow> State \<Rightarrow> OverflowRegion option \<times> State" where
  "create_overflow_region env s =
     (let oid = next_overflow_id s;
          s1 = s\<lparr>next_overflow_id := oid + 1\<rparr>;
          shm_name = make_overflow_shm_name env (mm_session_name s1) oid;
          region_size = overflow_region_size (config env);
          header_size = sizeof_MetadataOverflowDescriptor env;
          available = region_size - header_size;
          object_capacity = (ucast ((available * 50 div 100) div sizeof_ObjectEntry env) :: u32);
          type_capacity = (ucast ((available * 10 div 100) div sizeof_TypeEntry env) :: u32);
          field_capacity = (ucast ((available * 40 div 100) div sizeof_FieldEntry env) :: u32);
          object_size = (ucast object_capacity :: u64) * sizeof_ObjectEntry env;
          type_size = (ucast type_capacity :: u64) * sizeof_TypeEntry env;
          field_size = (ucast field_capacity :: u64) * sizeof_FieldEntry env;
          total_size = header_size + object_size + type_size + field_size
      in case shm_create env shm_name total_size of
           None \<Rightarrow> (None, s1)
         | Some data \<Rightarrow>
             let region = \<lparr>o_shm = data, o_id = oid,
                   o_descriptor = \<lparr>mo_region_id = oid, mo_next_region_id = 0,
                     mo_object_entry_offset = ucast header_size,
                     mo_object_entry_capacity = object_capacity,
                     mo_object_entry_count = 0,
                     mo_type_entry_offset = ucast (header_size + object_size),
                     mo_type_entry_capacity = type_capacity,
                     mo_type_entry_count = 0,
                     mo_field_entry_offset = ucast (header_size + object_size + type_size),
                     mo_field_entry_capacity = field_capacity,
                     mo_field_entry_count = 0,
                     mo_shm_name = shm_name\<rparr>\<rparr>;
                 s2 = (if overflow_regions s1 \<noteq> [] then
                         s1\<lparr>overflow_regions :=
                              update_back (set_overflow_next_region_id oid) (overflow_regions s1)\<rparr>
                       else s1\<lparr>header := (header s1)\<lparr>first_overflow_region_id := oid\<rparr>\<rparr>);
                 s3 = s2\<lparr>overflow_regions := overflow_regions s2 @ [region]\<rparr>
             in (Some region, bump_sequence s3))"

definition current_overflow_region :: "State \<Rightarrow> OverflowRegion option" where
  "current_overflow_region s =
     (if overflow_regions s = [] then None else Some (last (overflow_regions s)))"

text \<open>
  A pointer into the sub-pools of the current overflow region, the last element of
  \<^verbatim>\<open>overflow_regions_\<close>.
\<close>

definition in_current_overflow :: "State \<Rightarrow> nat \<Rightarrow> entry_ptr" where
  "in_current_overflow s i = InOverflow (length (overflow_regions s) - 1) i"

text \<open>
  \<^verbatim>\<open>MetadataManager::allocate_object_entry\<close>, in two parts: the tail of the function
  from the comment \<^verbatim>\<open>// Need new overflow region\<close> on, and the function itself, which
  reaches that tail from two places.
\<close>

definition object_entry_new_region :: "Env \<Rightarrow> State \<Rightarrow> entry_ptr option \<times> State" where
  "object_entry_new_region env s =
     (case create_overflow_region env s of
        (None, s1) \<Rightarrow> (None, s1)
      | (Some region, s1) \<Rightarrow>
          (Some (in_current_overflow s1 0),
           s1\<lparr>overflow_regions := update_back (set_object_entry_count 1) (overflow_regions s1)\<rparr>))"

definition allocate_object_entry :: "Env \<Rightarrow> State \<Rightarrow> entry_ptr option \<times> State" where
  "allocate_object_entry env s =
     (let count = object_count (header s)
      in if count < object_dir_capacity (header s) then
           (Some (InHeader (unat count)),
            s\<lparr>header := (header s)\<lparr>object_count := count + 1\<rparr>\<rparr>)
         else
           (case current_overflow_region s of
              Some region \<Rightarrow>
                let overflow_count = mo_object_entry_count (o_descriptor region)
                in if overflow_count < mo_object_entry_capacity (o_descriptor region) then
                     (Some (in_current_overflow s (unat overflow_count)),
                      s\<lparr>overflow_regions :=
                           update_back (set_object_entry_count (overflow_count + 1))
                             (overflow_regions s)\<rparr>)
                   else object_entry_new_region env s
            | None \<Rightarrow> object_entry_new_region env s))"

text \<open>\<^verbatim>\<open>MetadataManager::allocate_type_entry\<close>, split the same way.\<close>

definition type_entry_new_region :: "Env \<Rightarrow> State \<Rightarrow> entry_ptr option \<times> State" where
  "type_entry_new_region env s =
     (case create_overflow_region env s of
        (None, s1) \<Rightarrow> (None, s1)
      | (Some region, s1) \<Rightarrow>
          (Some (in_current_overflow s1 0),
           s1\<lparr>overflow_regions := update_back (set_type_entry_count 1) (overflow_regions s1)\<rparr>))"

definition allocate_type_entry :: "Env \<Rightarrow> State \<Rightarrow> entry_ptr option \<times> State" where
  "allocate_type_entry env s =
     (let count = type_count (header s)
      in if count < type_registry_capacity (header s) then
           (Some (InHeader (unat count)),
            s\<lparr>header := (header s)\<lparr>type_count := count + 1\<rparr>\<rparr>)
         else
           (case current_overflow_region s of
              Some region \<Rightarrow>
                let overflow_count = mo_type_entry_count (o_descriptor region)
                in if overflow_count < mo_type_entry_capacity (o_descriptor region) then
                     (Some (in_current_overflow s (unat overflow_count)),
                      s\<lparr>overflow_regions :=
                           update_back (set_type_entry_count (overflow_count + 1))
                             (overflow_regions s)\<rparr>)
                   else type_entry_new_region env s
            | None \<Rightarrow> type_entry_new_region env s))"

text \<open>
  \<^verbatim>\<open>MetadataManager::allocate_field_entries\<close>. \<^verbatim>\<open>current + count\<close> is a sum of two
  \<^verbatim>\<open>uint32_t\<close> and wraps. A new region that is too small for the request stays
  created although the call returns \<^verbatim>\<open>nullptr\<close>.
\<close>

definition field_entries_new_region :: "Env \<Rightarrow> u32 \<Rightarrow> State \<Rightarrow> entry_ptr option \<times> State" where
  "field_entries_new_region env count s =
     (case create_overflow_region env s of
        (None, s1) \<Rightarrow> (None, s1)
      | (Some region, s1) \<Rightarrow>
          if count > mo_field_entry_capacity (o_descriptor region) then (None, s1)
          else
            (Some (in_current_overflow s1 0),
             s1\<lparr>overflow_regions :=
                  update_back (set_field_entry_count count) (overflow_regions s1)\<rparr>))"

definition allocate_field_entries :: "Env \<Rightarrow> u32 \<Rightarrow> State \<Rightarrow> entry_ptr option \<times> State" where
  "allocate_field_entries env count s =
     (if count = 0 then (None, s)
      else
        let current = field_count (header s)
        in if current + count \<le> field_entries_capacity (header s) then
             (Some (InHeader (unat current)),
              s\<lparr>header := (header s)\<lparr>field_count := current + count\<rparr>\<rparr>)
           else
             (case current_overflow_region s of
                Some region \<Rightarrow>
                  let overflow_count = mo_field_entry_count (o_descriptor region)
                  in if overflow_count + count \<le> mo_field_entry_capacity (o_descriptor region) then
                       (Some (in_current_overflow s (unat overflow_count)),
                        s\<lparr>overflow_regions :=
                             update_back (set_field_entry_count (overflow_count + count))
                               (overflow_regions s)\<rparr>)
                     else field_entries_new_region env count s
              | None \<Rightarrow> field_entries_new_region env count s))"

section \<open>ObjectManager\<close>

text \<open>A store to one field of the entry a pointer refers to.\<close>

definition write_entry :: "entry_ptr \<Rightarrow> (ObjectEntry \<Rightarrow> ObjectEntry) \<Rightarrow> State \<Rightarrow> State" where
  "write_entry e f s = s\<lparr>objects := (objects s)(e := f (objects s e))\<rparr>"

text \<open>
  The six stores of \<^verbatim>\<open>register_object\<close> under \<^verbatim>\<open>// Initialize entry\<close>, in the order
  of the statements.
\<close>

definition initialize_entry ::
  "Env \<Rightarrow> entry_ptr \<Rightarrow> u32 \<Rightarrow> u64 \<Rightarrow> u64 \<Rightarrow> string \<Rightarrow> (State \<Rightarrow> State) list" where
  "initialize_entry env entry type_id region_id offset label =
     [write_entry entry (\<lambda>e. e\<lparr>oe_state := ObjectState_u32 Alive\<rparr>),
      write_entry entry (\<lambda>e. e\<lparr>oe_type_id := type_id\<rparr>),
      write_entry entry (\<lambda>e. e\<lparr>oe_region_id := region_id\<rparr>),
      write_entry entry (\<lambda>e. e\<lparr>oe_offset := offset\<rparr>),
      write_entry entry (\<lambda>e. e\<lparr>oe_generation := 1\<rparr>),
      write_entry entry (\<lambda>e. e\<lparr>oe_label := set_label env (oe_label e) label\<rparr>)]"

text \<open>Running a list of stores one after the other.\<close>

definition run_writes :: "(State \<Rightarrow> State) list \<Rightarrow> State \<Rightarrow> State" where
  "run_writes ws s = fold (\<lambda>w t. w t) ws s"

text \<open>\<^verbatim>\<open>ObjectManager::register_object\<close>.\<close>

definition register_object ::
  "Env \<Rightarrow> u64 \<Rightarrow> u32 \<Rightarrow> string \<Rightarrow> State \<Rightarrow> entry_ptr option \<times> State" where
  "register_object env p type_id label s =
     (case get_location s p of
        None \<Rightarrow> (None, s)
      | Some (region_id, offset) \<Rightarrow>
          (case allocate_object_entry env s of
             (None, s1) \<Rightarrow> (None, s1)
           | (Some entry, s1) \<Rightarrow>
               let s2 = run_writes (initialize_entry env entry type_id region_id offset label) s1;
                   s3 = bump_sequence s2
               in (Some entry, s3\<lparr>ptr_to_entry := (ptr_to_entry s3)(p \<mapsto> entry)\<rparr>)))"

text \<open>
  The states that a call of \<^verbatim>\<open>register_object\<close> goes through, in program order, once
  it is past \<^verbatim>\<open>get_location\<close>: the state in which \<^verbatim>\<open>allocate_object_entry\<close> returns,
  the state after each of the six stores to the entry, the state after the sequence is
  incremented, and the state in which the call returns.
\<close>

definition register_object_steps ::
  "Env \<Rightarrow> u64 \<Rightarrow> u32 \<Rightarrow> string \<Rightarrow> State \<Rightarrow> State list" where
  "register_object_steps env p type_id label s =
     (case get_location s p of
        None \<Rightarrow> []
      | Some (region_id, offset) \<Rightarrow>
          (case allocate_object_entry env s of
             (None, s1) \<Rightarrow> [s1]
           | (Some entry, s1) \<Rightarrow>
               let ws = initialize_entry env entry type_id region_id offset label;
                   s3 = bump_sequence (run_writes ws s1)
               in map (\<lambda>n. run_writes (take n ws) s1) [0..<Suc (length ws)]
                  @ [s3, s3\<lparr>ptr_to_entry := (ptr_to_entry s3)(p \<mapsto> entry)\<rparr>]))"

text \<open>\<^verbatim>\<open>ObjectManager::destroy_object\<close>.\<close>

definition destroy_object :: "u64 \<Rightarrow> State \<Rightarrow> State" where
  "destroy_object p s =
     (case ptr_to_entry s p of
        None \<Rightarrow> s
      | Some entry \<Rightarrow>
          let s1 = write_entry entry (\<lambda>e. e\<lparr>oe_state := ObjectState_u32 Destroyed\<rparr>) s;
              s2 = bump_sequence s1
          in s2\<lparr>ptr_to_entry := (ptr_to_entry s2)(p := None)\<rparr>)"

text \<open>
  \<^verbatim>\<open>std::string_view(entries[i].label)\<close>: the view of a character array ends before
  its first NUL.
\<close>

definition string_view :: "string \<Rightarrow> string" where
  "string_view cs = takeWhile (\<lambda>c. c \<noteq> CHR 0x00) cs"

text \<open>The condition of the \<^verbatim>\<open>if\<close> in the loop of \<^verbatim>\<open>find_object\<close>.\<close>

definition alive_with_label :: "ObjectEntry \<Rightarrow> string \<Rightarrow> bool" where
  "alive_with_label e label \<longleftrightarrow>
     oe_state e = ObjectState_u32 Alive \<and> string_view (oe_label e) = label"

text \<open>
  \<^verbatim>\<open>ObjectManager::find_object\<close>: the \<^verbatim>\<open>for\<close> loop over the header pool with its
  \<^verbatim>\<open>uint32_t\<close> counter.
\<close>

function find_object_loop ::
  "(entry_ptr \<Rightarrow> ObjectEntry) \<Rightarrow> u32 \<Rightarrow> u32 \<Rightarrow> string \<Rightarrow> entry_ptr option" where
  "find_object_loop entries i count label =
     (if i < count then
        (if alive_with_label (entries (InHeader (unat i))) label then Some (InHeader (unat i))
         else find_object_loop entries (i + 1) count label)
      else None)"
  by pat_completeness auto
termination
proof (relation "measure (\<lambda>(entries, i, count, label). unat count - unat i)")
  show "wf (measure (\<lambda>(entries, i, count, label). unat count - unat i))"
    by simp
next
  have step: "unat count - unat (i + 1) < unat count - unat i" if "i < count" for i count :: u32
  proof -
    have less: "unat i < unat count"
      using that by (simp add: word_less_nat_alt)
    moreover have "unat count < 2 ^ 32"
      using unsigned_less [of count, where 'a = nat] by simp
    ultimately have "Suc (unat i) < 2 ^ 32"
      by linarith
    then have "unat (i + 1) = Suc (unat i)"
      by (simp add: unat_word_ariths)
    with less show ?thesis
      by simp
  qed
  fix entries :: "entry_ptr \<Rightarrow> ObjectEntry" and i count :: u32 and label :: string
  assume "i < count"
  then show "((entries, i + 1, count, label), (entries, i, count, label))
      \<in> measure (\<lambda>(entries, i, count, label). unat count - unat i)"
    using step by simp
qed

definition find_object :: "State \<Rightarrow> string \<Rightarrow> entry_ptr option" where
  "find_object s label = find_object_loop (objects s) 0 (object_count (header s)) label"

text \<open>\<^verbatim>\<open>ObjectManager::get_all_objects\<close>: the loop pushes onto \<^verbatim>\<open>result\<close>.\<close>

function get_all_objects_loop ::
  "(entry_ptr \<Rightarrow> ObjectEntry) \<Rightarrow> u32 \<Rightarrow> u32 \<Rightarrow> entry_ptr list \<Rightarrow> entry_ptr list" where
  "get_all_objects_loop entries i count result =
     (if i < count then
        (if oe_state (entries (InHeader (unat i))) = ObjectState_u32 Alive
         then get_all_objects_loop entries (i + 1) count (result @ [InHeader (unat i)])
         else get_all_objects_loop entries (i + 1) count result)
      else result)"
  by pat_completeness auto
termination
proof (relation "measure (\<lambda>(entries, i, count, result). unat count - unat i)")
  show "wf (measure (\<lambda>(entries, i, count, result). unat count - unat i))"
    by simp
next
  have step: "unat count - unat (i + 1) < unat count - unat i" if "i < count" for i count :: u32
  proof -
    have less: "unat i < unat count"
      using that by (simp add: word_less_nat_alt)
    moreover have "unat count < 2 ^ 32"
      using unsigned_less [of count, where 'a = nat] by simp
    ultimately have "Suc (unat i) < 2 ^ 32"
      by linarith
    then have "unat (i + 1) = Suc (unat i)"
      by (simp add: unat_word_ariths)
    with less show ?thesis
      by simp
  qed
  {
    fix entries :: "entry_ptr \<Rightarrow> ObjectEntry" and i count :: u32 and result :: "entry_ptr list"
    assume "i < count"
    then show "((entries, i + 1, count, result @ [InHeader (unat i)]), (entries, i, count, result))
        \<in> measure (\<lambda>(entries, i, count, result). unat count - unat i)"
      using step by simp
  next
    fix entries :: "entry_ptr \<Rightarrow> ObjectEntry" and i count :: u32 and result :: "entry_ptr list"
    assume "i < count"
    then show "((entries, i + 1, count, result), (entries, i, count, result))
        \<in> measure (\<lambda>(entries, i, count, result). unat count - unat i)"
      using step by simp
  }
qed

definition get_all_objects :: "State \<Rightarrow> entry_ptr list" where
  "get_all_objects s = get_all_objects_loop (objects s) 0 (object_count (header s)) []"

section \<open>Sequences of operations\<close>

text \<open>
  The calls a producer makes on the three managers, and the state after a list of
  them, each call running to completion before the next one starts.
\<close>

datatype operation =
    Init string u64
  | MetadataInit string
  | Allocate u64 u64
  | AllocateObjectEntry
  | AllocateTypeEntry
  | AllocateFieldEntries u32
  | RegisterObject u64 u32 string
  | DestroyObject u64

fun apply_operation :: "Env \<Rightarrow> operation \<Rightarrow> State \<Rightarrow> State" where
  "apply_operation env (Init session_name initial_size) s =
     snd (init env session_name initial_size s)"
| "apply_operation env (MetadataInit session_name) s = snd (metadata_init session_name s)"
| "apply_operation env (Allocate sz alignment) s = snd (allocate env sz alignment s)"
| "apply_operation env AllocateObjectEntry s = snd (allocate_object_entry env s)"
| "apply_operation env AllocateTypeEntry s = snd (allocate_type_entry env s)"
| "apply_operation env (AllocateFieldEntries count) s = snd (allocate_field_entries env count s)"
| "apply_operation env (RegisterObject p type_id label) s =
     snd (register_object env p type_id label s)"
| "apply_operation env (DestroyObject p) s = destroy_object p s"

definition run :: "Env \<Rightarrow> operation list \<Rightarrow> State \<Rightarrow> State" where
  "run env ops s = fold (apply_operation env) ops s"

text \<open>
  The ids of a chain of regions, oldest first, against the counter the next id comes
  from: there are fewer regions than ids taken, the ids increase strictly, each id is
  at least 1 and below the counter, and when every id taken so far belongs to a region
  the ids are \<open>1, 2, \<dots>, n\<close>.
\<close>

definition ids_ordered :: "u64 list \<Rightarrow> u64 \<Rightarrow> bool" where
  "ids_ordered ids next \<longleftrightarrow>
     length ids < unat next \<and> sorted_wrt (<) ids \<and> (\<forall>i \<in> set ids. 1 \<le> i \<and> i < next)
     \<and> (unat next = Suc (length ids) \<longrightarrow> ids = map of_nat [1..<Suc (length ids)])"

text \<open>
  What one call can do to a chain: nothing, append a region with the next id, or use up
  an id without creating the region.
\<close>

definition ids_step :: "u64 list \<Rightarrow> u64 \<Rightarrow> u64 list \<Rightarrow> u64 \<Rightarrow> bool" where
  "ids_step ids next ids' next' \<longleftrightarrow>
     ids' = ids \<and> next' = next \<or> ids' = ids @ [next] \<and> next' = next + 1
     \<or> ids' = ids \<and> next' = next + 1"

definition data_step :: "State \<Rightarrow> State \<Rightarrow> bool" where
  "data_step s s' \<longleftrightarrow>
     ids_step (map r_id (regions s)) (next_region_id s)
       (map r_id (regions s')) (next_region_id s')"

definition overflow_step :: "State \<Rightarrow> State \<Rightarrow> bool" where
  "overflow_step s s' \<longleftrightarrow>
     ids_step (map o_id (overflow_regions s)) (next_overflow_id s)
       (map o_id (overflow_regions s')) (next_overflow_id s')"

section \<open>A producer at start-up and a concrete session\<close>

text \<open>
  Modelled from the spec: the start-up of the context, which creates the header, is
  absent; the header starts with \<^verbatim>\<open>first_region_id\<close> and
  \<^verbatim>\<open>first_overflow_region_id\<close> at 0, with the sequence and the three counts at zero
  and with the pool capacities of the configuration. The members of the managers are
  as \<^verbatim>\<open>allocator.hpp\<close> and the constructors initialise them
  (\<^verbatim>\<open>next_region_id_ = 1\<close>, \<^verbatim>\<open>next_overflow_id_ = 1\<close>,
  \<^verbatim>\<open>current_region_size_(ctx.config().initial_region_size)\<close>, empty containers).
  The content of the entry memory is a parameter.
\<close>

definition initial_state ::
  "Env \<Rightarrow> u32 \<Rightarrow> u32 \<Rightarrow> u32 \<Rightarrow> (entry_ptr \<Rightarrow> ObjectEntry) \<Rightarrow> State" where
  "initial_state env object_capacity type_capacity field_capacity memory =
     \<lparr>header = \<lparr>sequence = 0, first_region_id = 0, first_overflow_region_id = 0,
        object_dir_capacity = object_capacity, object_count = 0,
        type_registry_capacity = type_capacity, type_count = 0,
        field_entries_capacity = field_capacity, field_count = 0\<rparr>,
      rm_session_name = [], regions = [], next_region_id = 1,
      current_region_size = initial_region_size (config env),
      mm_session_name = [], overflow_regions = [], next_overflow_id = 1,
      ptr_to_entry = Map.empty, objects = memory\<rparr>"

text \<open>A freshly created mapping is filled with zero bytes.\<close>

definition zero_entry :: ObjectEntry where
  "zero_entry = \<lparr>oe_state = 0, oe_type_id = 0, oe_region_id = 0, oe_offset = 0,
     oe_generation = 0, oe_label = replicate 64 (CHR 0x00)\<rparr>"

text \<open>
  Modelled from the spec: \<^verbatim>\<open>detail::make_region_shm_name\<close> and
  \<^verbatim>\<open>detail::make_overflow_shm_name\<close> are absent; the names are \<^verbatim>\<open>mg.<S>.r.<i>\<close> and
  \<^verbatim>\<open>mg.<S>.o.<i>\<close>, with the id in decimal.
\<close>

fun decimal :: "nat \<Rightarrow> string" where
  "decimal n =
     (if n < 10 then [''0123456789'' ! n]
      else decimal (n div 10) @ [''0123456789'' ! (n mod 10)])"

definition region_shm_name :: "string \<Rightarrow> u64 \<Rightarrow> string" where
  "region_shm_name session_name i = ''mg.'' @ session_name @ ''.r.'' @ decimal (unat i)"

definition overflow_shm_name :: "string \<Rightarrow> u64 \<Rightarrow> string" where
  "overflow_shm_name session_name i = ''mg.'' @ session_name @ ''.o.'' @ decimal (unat i)"

text \<open>
  Modelled from the spec: \<^verbatim>\<open>ObjectEntry::set_label\<close> is absent; the label is stored
  inline in a fixed array and read back as a NUL-terminated string, so the copy keeps
  what fits before the terminator and leaves the rest of the array as it was.
\<close>

definition copy_label :: "string \<Rightarrow> string \<Rightarrow> string" where
  "copy_label array label =
     (let n = min (length label) (length array - 1)
      in take n label @ [CHR 0x00] @ drop (Suc n) array)"

text \<open>
  A concrete session: the sizes follow the binary layout of the spec (a region
  descriptor of 296 bytes, an overflow descriptor of 320, entries of 96, 80 and 80), and
  the operating system maps the regions named in the table, each at its own address,
  and refuses any other name: a third data region cannot be created.
\<close>

definition demo_mappings :: "(string \<times> u64) list" where
  "demo_mappings =
     [(''mg.demo.r.1'', 0x100000), (''mg.demo.r.2'', 0x200000),
      (''mg.demo.o.1'', 0x800000), (''mg.demo.o.2'', 0x900000)]"

definition demo_env :: "Config \<Rightarrow> Env" where
  "demo_env cfg =
     \<lparr>config = cfg, sizeof_RegionDescriptor = 296, sizeof_MetadataOverflowDescriptor = 320,
      sizeof_ObjectEntry = 96, sizeof_TypeEntry = 80, sizeof_FieldEntry = 80,
      set_label = copy_label,
      make_region_shm_name = region_shm_name, make_overflow_shm_name = overflow_shm_name,
      shm_create = (\<lambda>name total_size. map_of demo_mappings name)\<rparr>"

text \<open>The configuration used below: 4 KiB regions growing to 16 MiB at most.\<close>

definition demo_config :: Config where
  "demo_config = \<lparr>initial_region_size = 4096, max_region_size = 16777216,
     overflow_region_size = 4096\<rparr>"

text \<open>
  The session after start-up: the first data region exists and both managers know the
  session name. The header's object directory has room for \<open>object_capacity\<close> entries,
  the type registry and the field pool for one entry each.
\<close>

definition demo_start :: "Config \<Rightarrow> u32 \<Rightarrow> State" where
  "demo_start cfg object_capacity =
     snd (metadata_init ''demo''
       (snd (init (demo_env cfg) ''demo'' (initial_region_size cfg)
         (initial_state (demo_env cfg) object_capacity 1 1 (\<lambda>_. zero_entry)))))"

text \<open>
  Two objects of 64 bytes are allocated and registered as \<open>x\<close> and \<open>y\<close> while the
  header's object directory holds one entry: \<open>0x100128\<close> and \<open>0x100168\<close> are the
  addresses the two allocations return.
\<close>

definition demo_allocated :: State where
  "demo_allocated = snd (allocate (demo_env demo_config) 64 8 (demo_start demo_config 1))"

definition demo_one_object :: State where
  "demo_one_object =
     snd (register_object (demo_env demo_config) 0x100128 7 ''x'' demo_allocated)"

definition demo_two_objects :: State where
  "demo_two_objects =
     snd (register_object (demo_env demo_config) 0x100168 7 ''y''
       (snd (allocate (demo_env demo_config) 64 8 demo_one_object)))"

text \<open>
  A header pool of two entries that holds two objects registered under the same label
  \<open>x\<close>, the first at \<open>0x100128\<close> and the second at \<open>0x100168\<close>.
\<close>

definition demo_same_label :: State where
  "demo_same_label =
     snd (register_object (demo_env demo_config) 0x100168 7 ''x''
       (snd (allocate (demo_env demo_config) 64 8
         (snd (register_object (demo_env demo_config) 0x100128 7 ''x''
           (snd (allocate (demo_env demo_config) 64 8 (demo_start demo_config 2))))))))"

text \<open>The registration of \<open>x\<close>, step by step.\<close>

definition demo_register_steps :: "State list" where
  "demo_register_steps =
     register_object_steps (demo_env demo_config) 0x100128 7 ''x'' demo_allocated"

text \<open>The session in which the header's object directory is full and nothing else is in use.\<close>

definition demo_object_pool_full :: State where
  "demo_object_pool_full =
     snd (allocate_object_entry (demo_env demo_config) (demo_start demo_config 1))"

text \<open>
  The calls that lead from the fresh producer to the session with two objects, followed
  by an allocation that does not fit into the first region.
\<close>

definition demo_operations :: "operation list" where
  "demo_operations =
     [Init ''demo'' 4096, MetadataInit ''demo'',
      Allocate 64 8, RegisterObject 0x100128 7 ''x'',
      Allocate 64 8, RegisterObject 0x100168 7 ''y'',
      Allocate 4100 8]"

section \<open>Evaluation and basic facts\<close>

declare find_object_loop.simps [simp del]
declare get_all_objects_loop.simps [simp del]

lemmas demo_defs =
  demo_start_def demo_allocated_def demo_one_object_def demo_two_objects_def demo_env_def
  demo_config_def demo_register_steps_def demo_object_pool_full_def
  demo_operations_def demo_same_label_def
  demo_mappings_def initial_state_def zero_entry_def copy_label_def region_shm_name_def
  overflow_shm_name_def

lemmas manager_defs =
  metadata_init_def init_def create_region_def update_back_def allocate_def
  current_region_def align_up_def set_used_def set_next_region_id_def bump_sequence_def
  get_location_def create_overflow_region_def current_overflow_region_def
  in_current_overflow_def set_object_entry_count_def set_type_entry_count_def
  set_field_entry_count_def set_overflow_next_region_id_def
  allocate_object_entry_def object_entry_new_region_def
  allocate_type_entry_def type_entry_new_region_def
  allocate_field_entries_def field_entries_new_region_def
  register_object_def register_object_steps_def destroy_object_def run_writes_def initialize_entry_def write_entry_def
  find_object_def get_all_objects_def alive_with_label_def string_view_def Let_def

lemma length_update_back [simp]: "length (update_back f xs) = length xs"
  by (simp add: update_back_def)

lemma map_update_back:
  assumes "\<And>x. g (f x) = g x"
  shows "map g (update_back f xs) = map g xs"
proof (cases "xs = []")
  case True
  then show ?thesis
    by (simp add: update_back_def)
next
  case False
  then have "map g xs = map g (butlast xs @ [last xs])"
    by simp
  also have "\<dots> = map g (butlast xs) @ [g (f (last xs))]"
    by (simp add: assms)
  finally show ?thesis
    using False by (simp add: update_back_def)
qed

lemma unat_succ_less:
  fixes i count :: "'a::len word"
  assumes "i < count"
  shows "unat (i + 1) = Suc (unat i)"
proof -
  have "unat i < unat count"
    using assms by (simp add: word_less_nat_alt)
  moreover have "unat count < 2 ^ LENGTH('a)"
    by (rule unsigned_less)
  ultimately have "Suc (unat i) < 2 ^ LENGTH('a)"
    by linarith
  then show ?thesis
    by (simp add: unat_word_ariths)
qed

section \<open>ObjectManager::find_object\<close>

lemma find_object_loop_None:
  "find_object_loop entries i count label = None \<longleftrightarrow>
     (\<forall>k. unat i \<le> k \<and> k < unat count \<longrightarrow> \<not> alive_with_label (entries (InHeader k)) label)"
proof (induction entries i count label rule: find_object_loop.induct)
  case (1 entries i count label)
  show ?case
  proof (cases "i < count")
    case False
    then have "unat count \<le> unat i"
      by (simp add: word_less_nat_alt)
    with False show ?thesis
      by (subst find_object_loop.simps) auto
  next
    case True
    note less = True
    then have suc: "unat (i + 1) = Suc (unat i)"
      by (rule unat_succ_less)
    have lt: "unat i < unat count"
      using less by (simp add: word_less_nat_alt)
    show ?thesis
    proof (cases "alive_with_label (entries (InHeader (unat i))) label")
      case True
      with less lt show ?thesis
        by (subst find_object_loop.simps) auto
    next
      case False
      have "find_object_loop entries i count label = find_object_loop entries (i + 1) count label"
        using less False by (subst find_object_loop.simps) simp
      also have "\<dots> = None \<longleftrightarrow>
          (\<forall>k. Suc (unat i) \<le> k \<and> k < unat count \<longrightarrow>
             \<not> alive_with_label (entries (InHeader k)) label)"
        using "1.IH" [OF less False] suc by simp
      also have "\<dots> \<longleftrightarrow>
          (\<forall>k. unat i \<le> k \<and> k < unat count \<longrightarrow>
             \<not> alive_with_label (entries (InHeader k)) label)"
      proof -
        have "Suc (unat i) \<le> j \<longleftrightarrow> unat i \<le> j \<and> j \<noteq> unat i" for j
          by auto
        with False show ?thesis
          by (metis (no_types, lifting))
      qed
      finally show ?thesis .
    qed
  qed
qed

lemma find_object_loop_Some:
  "find_object_loop entries i count label = Some e \<longleftrightarrow>
     (\<exists>k. unat i \<le> k \<and> k < unat count \<and> e = InHeader k
        \<and> alive_with_label (entries (InHeader k)) label
        \<and> (\<forall>j. unat i \<le> j \<and> j < k \<longrightarrow> \<not> alive_with_label (entries (InHeader j)) label))"
proof (induction entries i count label rule: find_object_loop.induct)
  case (1 entries i count label)
  show ?case
  proof (cases "i < count")
    case False
    then have "unat count \<le> unat i"
      by (simp add: word_less_nat_alt)
    with False show ?thesis
      by (subst find_object_loop.simps) auto
  next
    case True
    note less = True
    then have suc: "unat (i + 1) = Suc (unat i)"
      by (rule unat_succ_less)
    have lt: "unat i < unat count"
      using less by (simp add: word_less_nat_alt)
    show ?thesis
    proof (cases "alive_with_label (entries (InHeader (unat i))) label")
      case True
      have "find_object_loop entries i count label = Some (InHeader (unat i))"
        using less True by (subst find_object_loop.simps) simp
      moreover have "(\<exists>k. unat i \<le> k \<and> k < unat count \<and> e = InHeader k
        \<and> alive_with_label (entries (InHeader k)) label
        \<and> (\<forall>j. unat i \<le> j \<and> j < k \<longrightarrow> \<not> alive_with_label (entries (InHeader j)) label))
        \<longleftrightarrow> e = InHeader (unat i)"
      proof
        assume "\<exists>k. unat i \<le> k \<and> k < unat count \<and> e = InHeader k
          \<and> alive_with_label (entries (InHeader k)) label
          \<and> (\<forall>j. unat i \<le> j \<and> j < k \<longrightarrow> \<not> alive_with_label (entries (InHeader j)) label)"
        then obtain k where k: "unat i \<le> k" "e = InHeader k"
          and first: "\<forall>j. unat i \<le> j \<and> j < k \<longrightarrow>
            \<not> alive_with_label (entries (InHeader j)) label"
          by blast
        have "\<not> unat i < k"
          using first True by blast
        with k show "e = InHeader (unat i)"
          by simp
      next
        assume "e = InHeader (unat i)"
        with True lt show "\<exists>k. unat i \<le> k \<and> k < unat count \<and> e = InHeader k
          \<and> alive_with_label (entries (InHeader k)) label
          \<and> (\<forall>j. unat i \<le> j \<and> j < k \<longrightarrow> \<not> alive_with_label (entries (InHeader j)) label)"
          by (intro exI [of _ "unat i"]) auto
      qed
      ultimately show ?thesis
        by auto
    next
      case False
      have "find_object_loop entries i count label = find_object_loop entries (i + 1) count label"
        using less False by (subst find_object_loop.simps) simp
      also have "\<dots> = Some e \<longleftrightarrow>
          (\<exists>k. Suc (unat i) \<le> k \<and> k < unat count \<and> e = InHeader k
        \<and> alive_with_label (entries (InHeader k)) label
        \<and> (\<forall>j. Suc (unat i) \<le> j \<and> j < k \<longrightarrow>
              \<not> alive_with_label (entries (InHeader j)) label))"
        using "1.IH" [OF less False] suc by simp
      also have "\<dots> \<longleftrightarrow>
          (\<exists>k. unat i \<le> k \<and> k < unat count \<and> e = InHeader k
        \<and> alive_with_label (entries (InHeader k)) label
        \<and> (\<forall>j. unat i \<le> j \<and> j < k \<longrightarrow> \<not> alive_with_label (entries (InHeader j)) label))"
      proof -
        have "Suc (unat i) \<le> j \<longleftrightarrow> unat i \<le> j \<and> j \<noteq> unat i" for j
          by auto
        with False show ?thesis
          by (metis (no_types, lifting))
      qed
      finally show ?thesis .
    qed
  qed
qed

text \<open>
  Claim C6. \<^verbatim>\<open>find_object(label)\<close> scans only the header object pool, from index 0 up
  to its count, and returns the first entry whose state is \<open>Alive\<close> and whose label,
  read as a string, equals the argument; it returns null exactly when the header pool
  has no such entry. The result depends on nothing but the header pool and its count,
  so a matching alive entry in an overflow pool is never found.
\<close>

theorem find_object_scans_header_pool:
  "(find_object s label = Some e \<longleftrightarrow>
      (\<exists>i < unat (object_count (header s)). e = InHeader i
         \<and> oe_state (objects s (InHeader i)) = ObjectState_u32 Alive
         \<and> string_view (oe_label (objects s (InHeader i))) = label
         \<and> (\<forall>j < i. \<not> (oe_state (objects s (InHeader j)) = ObjectState_u32 Alive
                        \<and> string_view (oe_label (objects s (InHeader j))) = label))))
   \<and> (find_object s label = None \<longleftrightarrow>
      (\<forall>i < unat (object_count (header s)).
         \<not> (oe_state (objects s (InHeader i)) = ObjectState_u32 Alive
            \<and> string_view (oe_label (objects s (InHeader i))) = label)))
   \<and> (object_count (header s') = object_count (header s)
        \<and> (\<forall>i. objects s' (InHeader i) = objects s (InHeader i))
      \<longrightarrow> find_object s' label = find_object s label)"
proof (intro conjI impI)
  show some: "find_object s label = Some e \<longleftrightarrow>
      (\<exists>i < unat (object_count (header s)). e = InHeader i
         \<and> oe_state (objects s (InHeader i)) = ObjectState_u32 Alive
         \<and> string_view (oe_label (objects s (InHeader i))) = label
         \<and> (\<forall>j < i. \<not> (oe_state (objects s (InHeader j)) = ObjectState_u32 Alive
                        \<and> string_view (oe_label (objects s (InHeader j))) = label)))" for s e
    unfolding find_object_def find_object_loop_Some alive_with_label_def by auto
  show none: "find_object s label = None \<longleftrightarrow>
      (\<forall>i < unat (object_count (header s)).
         \<not> (oe_state (objects s (InHeader i)) = ObjectState_u32 Alive
            \<and> string_view (oe_label (objects s (InHeader i))) = label))" for s
    unfolding find_object_def find_object_loop_None alive_with_label_def by auto
  assume same: "object_count (header s') = object_count (header s)
        \<and> (\<forall>i. objects s' (InHeader i) = objects s (InHeader i))"
  show "find_object s' label = find_object s label"
  proof (cases "find_object s label")
    case None
    then show ?thesis
      using same none [of s] none [of s'] by simp
  next
    case (Some e)
    then show ?thesis
      using same some [of s e] some [of s' e] by simp
  qed
qed

text \<open>
  In the session with two objects the header pool holds \<open>x\<close> and the overflow pool holds
  \<open>y\<close>: \<open>y\<close> is alive and not found, \<open>x\<close> is found, also after \<open>y\<close> is destroyed.
  Once \<open>x\<close> is destroyed its entry keeps the label and is not found. Of two alive
  header entries with the same label the first is found, and the second once the first
  is destroyed; a label that no entry has is not found.
\<close>

theorem find_object_scans_header_pool_witness:
  "find_object demo_two_objects ''y'' = None
   \<and> oe_state (objects demo_two_objects (InOverflow 0 0)) = ObjectState_u32 Alive
   \<and> string_view (oe_label (objects demo_two_objects (InOverflow 0 0))) = ''y''
   \<and> find_object demo_two_objects ''x'' = Some (InHeader 0)
   \<and> find_object (destroy_object 0x100168 demo_two_objects) ''x'' = Some (InHeader 0)
   \<and> string_view (oe_label (objects (destroy_object 0x100128 demo_one_object) (InHeader 0))) = ''x''
   \<and> oe_state (objects (destroy_object 0x100128 demo_one_object) (InHeader 0))
       = ObjectState_u32 Destroyed
   \<and> find_object (destroy_object 0x100128 demo_one_object) ''x'' = None
   \<and> unat (object_count (header demo_same_label)) = 2
   \<and> find_object demo_same_label ''x'' = Some (InHeader 0)
   \<and> find_object (destroy_object 0x100128 demo_same_label) ''x'' = Some (InHeader 1)
   \<and> find_object demo_same_label ''xx'' = None"
proof -
  note scan = find_object_scans_header_pool
  let ?d1 = "destroy_object 0x100128 demo_one_object"
  let ?d2 = "destroy_object 0x100128 demo_same_label"
  have two: "unat (object_count (header demo_two_objects)) = 1"
    "oe_state (objects demo_two_objects (InHeader 0)) = ObjectState_u32 Alive"
    "string_view (oe_label (objects demo_two_objects (InHeader 0))) = ''x''"
    "oe_state (objects demo_two_objects (InOverflow 0 0)) = ObjectState_u32 Alive"
    "string_view (oe_label (objects demo_two_objects (InOverflow 0 0))) = ''y''"
    by (simp_all add: demo_defs manager_defs)
  have same: "object_count (header (destroy_object 0x100168 demo_two_objects))
        = object_count (header demo_two_objects)
      \<and> (\<forall>i. objects (destroy_object 0x100168 demo_two_objects) (InHeader i)
           = objects demo_two_objects (InHeader i))"
    by (simp add: demo_defs manager_defs)
  have destroyed: "unat (object_count (header ?d1)) = 1"
    "oe_state (objects ?d1 (InHeader 0)) = ObjectState_u32 Destroyed"
    "string_view (oe_label (objects ?d1 (InHeader 0))) = ''x''"
    by (simp_all add: demo_defs manager_defs)
  have pair: "unat (object_count (header demo_same_label)) = 2"
    "oe_state (objects demo_same_label (InHeader 0)) = ObjectState_u32 Alive"
    "string_view (oe_label (objects demo_same_label (InHeader 0))) = ''x''"
    "oe_state (objects demo_same_label (InHeader (Suc 0))) = ObjectState_u32 Alive"
    "string_view (oe_label (objects demo_same_label (InHeader (Suc 0)))) = ''x''"
    by (simp_all add: demo_defs manager_defs)
  have pair': "unat (object_count (header ?d2)) = 2"
    "oe_state (objects ?d2 (InHeader 0)) = ObjectState_u32 Destroyed"
    "oe_state (objects ?d2 (InHeader (Suc 0))) = ObjectState_u32 Alive"
    "string_view (oe_label (objects ?d2 (InHeader (Suc 0)))) = ''x''"
    by (simp_all add: demo_defs manager_defs)
  have "find_object demo_two_objects ''y'' = None"
    using scan [of demo_two_objects "''y''"] two by simp
  moreover have "find_object demo_two_objects ''x'' = Some (InHeader 0)"
    using scan [of demo_two_objects "''x''" "InHeader 0"] two by simp
  moreover have "find_object (destroy_object 0x100168 demo_two_objects) ''x''
      = find_object demo_two_objects ''x''"
    using scan [of demo_two_objects "''x''" _ "destroy_object 0x100168 demo_two_objects"] same
    by blast
  moreover have "find_object ?d1 ''x'' = None"
    using scan [of ?d1 "''x''"] destroyed by simp
  moreover have "find_object demo_same_label ''x'' = Some (InHeader 0)"
    using scan [of demo_same_label "''x''" "InHeader 0"] pair by simp
  moreover have "find_object ?d2 ''x'' = Some (InHeader 1)"
  proof -
    have "\<exists>i < unat (object_count (header ?d2)). InHeader 1 = InHeader i
         \<and> oe_state (objects ?d2 (InHeader i)) = ObjectState_u32 Alive
         \<and> string_view (oe_label (objects ?d2 (InHeader i))) = ''x''
         \<and> (\<forall>j < i. \<not> (oe_state (objects ?d2 (InHeader j)) = ObjectState_u32 Alive
                        \<and> string_view (oe_label (objects ?d2 (InHeader j))) = ''x''))"
      using pair' by (intro exI [of _ 1]) simp
    then show ?thesis
      using scan [of ?d2 "''x''" "InHeader 1"] by blast
  qed
  moreover have "find_object demo_same_label ''xx'' = None"
  proof -
    have "\<forall>i < unat (object_count (header demo_same_label)).
         \<not> (oe_state (objects demo_same_label (InHeader i)) = ObjectState_u32 Alive
            \<and> string_view (oe_label (objects demo_same_label (InHeader i))) = ''xx'')"
      using pair by (simp add: less_Suc_eq numeral_2_eq_2)
    then show ?thesis
      using scan [of demo_same_label "''xx''"] by blast
  qed
  ultimately show ?thesis
    using two destroyed pair by simp
qed

section \<open>ObjectManager::destroy_object\<close>

text \<open>
  Claim C10. \<^verbatim>\<open>destroy_object(ptr)\<close> with a pointer that is not in the pointer-to-entry
  map leaves the whole state as it is: no entry, not the sequence, not the map changes.
  A pointer that has just been destroyed is such a pointer: destroying it again
  changes nothing.
\<close>

theorem destroy_object_unregistered:
  "(ptr_to_entry s p = None \<longrightarrow> destroy_object p s = s)
   \<and> destroy_object p (destroy_object p s) = destroy_object p s"
  by (simp add: destroy_object_def Let_def split: option.splits)

theorem destroy_object_unregistered_witness:
  "ptr_to_entry demo_one_object 0x100168 = None
   \<and> destroy_object 0x100168 demo_one_object = demo_one_object
   \<and> ptr_to_entry demo_one_object 0x100128 = Some (InHeader 0)"
proof -
  have "ptr_to_entry demo_one_object 0x100168 = None"
    by (simp add: demo_defs manager_defs)
  moreover have "ptr_to_entry demo_one_object 0x100128 = Some (InHeader 0)"
    by (simp add: demo_defs manager_defs)
  ultimately show ?thesis
    using destroy_object_unregistered [of demo_one_object "0x100168"] by simp
qed

section \<open>ObjectEntry.generation\<close>

text \<open>
  Claim C8, as the code has it. \<^verbatim>\<open>register_object\<close> sets the generation of the new
  entry to 1. \<^verbatim>\<open>destroy_object\<close> stores the state \<open>Destroyed\<close> in the entry of a
  registered pointer and leaves the generation of every entry as it was: the
  generation does not increase on the state change.
\<close>

theorem generation_written_once:
  "(fst (register_object env p type_id label s) = Some e \<longrightarrow>
      oe_generation (objects (snd (register_object env p type_id label s)) e) = 1)
   \<and> (\<forall>e'. oe_generation (objects (destroy_object p s) e') = oe_generation (objects s e'))
   \<and> (ptr_to_entry s p = Some e \<longrightarrow>
        oe_state (objects (destroy_object p s) e) = ObjectState_u32 Destroyed)"
  by (auto simp: register_object_def destroy_object_def run_writes_def initialize_entry_def
      write_entry_def bump_sequence_def Let_def split: option.splits prod.splits)

theorem generation_written_once_witness:
  "fst (register_object (demo_env demo_config) 0x100128 7 ''x'' demo_allocated) = Some (InHeader 0)
   \<and> oe_generation (objects demo_one_object (InHeader 0)) = 1
   \<and> ptr_to_entry demo_one_object 0x100128 = Some (InHeader 0)
   \<and> oe_state (objects (destroy_object 0x100128 demo_one_object) (InHeader 0)) = 2
   \<and> oe_generation (objects (destroy_object 0x100128 demo_one_object) (InHeader 0)) = 1"
proof -
  have reg: "fst (register_object (demo_env demo_config) 0x100128 7 ''x'' demo_allocated)
      = Some (InHeader 0)"
    by (simp add: demo_defs manager_defs)
  have ptr: "ptr_to_entry demo_one_object 0x100128 = Some (InHeader 0)"
    by (simp add: demo_defs manager_defs)
  have gen: "oe_generation (objects demo_one_object (InHeader 0)) = 1"
    using generation_written_once
      [of "demo_env demo_config" "0x100128" 7 "''x''" demo_allocated "InHeader 0"] reg
    by (simp add: demo_one_object_def)
  show ?thesis
    using generation_written_once [of _ "0x100128" _ _ demo_one_object "InHeader 0"] reg ptr gen
    by simp
qed

text \<open>
  Claim C8 as stated fails: the object \<open>x\<close> is alive with generation 1, and after
  \<^verbatim>\<open>destroy_object\<close> its state is \<open>Destroyed\<close> and its generation is not greater.
\<close>

theorem generation_after_destroy_counterexample:
  "oe_state (objects demo_one_object (InHeader 0)) = ObjectState_u32 Alive
   \<and> ptr_to_entry demo_one_object 0x100128 = Some (InHeader 0)
   \<and> oe_state (objects (destroy_object 0x100128 demo_one_object) (InHeader 0))
       = ObjectState_u32 Destroyed
   \<and> \<not> oe_generation (objects demo_one_object (InHeader 0))
       < oe_generation (objects (destroy_object 0x100128 demo_one_object) (InHeader 0))"
  by (simp add: demo_defs manager_defs)

section \<open>The order of the stores in register_object\<close>

lemma register_object_steps_last:
  "fst (register_object env p type_id label s) \<noteq> None \<Longrightarrow>
     last (register_object_steps env p type_id label s)
       = snd (register_object env p type_id label s)"
  by (auto simp: register_object_def register_object_steps_def Let_def
      split: option.splits prod.splits)

text \<open>
  Claim C1, evaluated on the registration of \<open>x\<close> in the concrete session. Before the
  call the header pool has count 0. In the first state of the call
  (\<^verbatim>\<open>allocate_object_entry\<close> has returned) the count is already 1 while entry 0 is
  still the zero bytes of the fresh mapping. In the next state the entry's state is
  \<open>Alive\<close> while type id, region id, offset, generation and label are still zero.
  Only the last state holds the values of the call. So the count and the state are
  published before the body fields are written, and an entry below the count is not
  always initialised.
\<close>

theorem register_object_publishes_first:
  "object_count (header demo_allocated) = 0
   \<and> object_count (header (demo_register_steps ! 0)) = 1
   \<and> objects (demo_register_steps ! 0) (InHeader 0) = zero_entry
   \<and> oe_state (objects (demo_register_steps ! 1) (InHeader 0)) = ObjectState_u32 Alive
   \<and> oe_type_id (objects (demo_register_steps ! 1) (InHeader 0)) = 0
   \<and> oe_region_id (objects (demo_register_steps ! 1) (InHeader 0)) = 0
   \<and> oe_offset (objects (demo_register_steps ! 1) (InHeader 0)) = 0
   \<and> oe_generation (objects (demo_register_steps ! 1) (InHeader 0)) = 0
   \<and> string_view (oe_label (objects (demo_register_steps ! 1) (InHeader 0))) = []
   \<and> last demo_register_steps = demo_one_object
   \<and> oe_type_id (objects demo_one_object (InHeader 0)) = 7
   \<and> oe_region_id (objects demo_one_object (InHeader 0)) = 1
   \<and> oe_offset (objects demo_one_object (InHeader 0)) = 296
   \<and> oe_generation (objects demo_one_object (InHeader 0)) = 1
   \<and> string_view (oe_label (objects demo_one_object (InHeader 0))) = ''x''"
proof -
  have "fst (register_object (demo_env demo_config) 0x100128 7 ''x'' demo_allocated) \<noteq> None"
    by (simp add: demo_defs manager_defs)
  then have "last demo_register_steps = demo_one_object"
    unfolding demo_register_steps_def demo_one_object_def by (rule register_object_steps_last)
  moreover have "object_count (header demo_allocated) = 0"
    by (simp add: demo_defs manager_defs)
  moreover have "object_count (header (demo_register_steps ! 0)) = 1
      \<and> objects (demo_register_steps ! 0) (InHeader 0) = zero_entry"
    by (simp add: demo_defs manager_defs)
  moreover have "oe_state (objects (demo_register_steps ! 1) (InHeader 0)) = ObjectState_u32 Alive
   \<and> oe_type_id (objects (demo_register_steps ! 1) (InHeader 0)) = 0
   \<and> oe_region_id (objects (demo_register_steps ! 1) (InHeader 0)) = 0
   \<and> oe_offset (objects (demo_register_steps ! 1) (InHeader 0)) = 0
   \<and> oe_generation (objects (demo_register_steps ! 1) (InHeader 0)) = 0
   \<and> string_view (oe_label (objects (demo_register_steps ! 1) (InHeader 0))) = []"
    by (simp add: demo_defs manager_defs)
  moreover have "oe_type_id (objects demo_one_object (InHeader 0)) = 7
   \<and> oe_region_id (objects demo_one_object (InHeader 0)) = 1
   \<and> oe_offset (objects demo_one_object (InHeader 0)) = 296
   \<and> oe_generation (objects demo_one_object (InHeader 0)) = 1
   \<and> string_view (oe_label (objects demo_one_object (InHeader 0))) = ''x''"
    by (simp add: demo_defs manager_defs)
  ultimately show ?thesis
    by blast
qed

section \<open>The used cursor after a clamped growth\<close>

text \<open>
  Claim C2, evaluated where the growth is clamped. In the concrete session
  (\<^verbatim>\<open>max_region_size\<close> of 16 MiB, a first region of 4 KiB) \<^verbatim>\<open>allocate\<close> of 32 MiB
  with alignment 8 creates region 2 with a body of 16 MiB, so with size 16777512,
  returns the address at its offset 296, and stores 33554728 in its \<^verbatim>\<open>used\<close>: the
  cursor exceeds the size of the region. The fit is tested for the current region only
  and not again for the new one.
\<close>

theorem allocate_clamped_overruns_region:
  "fst (allocate (demo_env demo_config) 33554432 8 (demo_start demo_config 1))
     = Some 0x200128
   \<and> map (\<lambda>r. (r_id r, rd_size (r_descriptor r), rd_used (r_descriptor r)))
       (regions (snd (allocate (demo_env demo_config) 33554432 8 (demo_start demo_config 1))))
     = [(1, 4392, 296), (2, 16777512, 33554728)]
   \<and> (16777512 :: u64) < 33554728"
  by (simp add: demo_defs manager_defs)

section \<open>ObjectManager::get_all_objects\<close>

lemma get_all_objects_loop_eq:
  "get_all_objects_loop entries i count result =
     result @ map InHeader
       (filter (\<lambda>k. oe_state (entries (InHeader k)) = ObjectState_u32 Alive)
          [unat i..<unat count])"
proof (induction entries i count result rule: get_all_objects_loop.induct)
  case (1 entries i count result)
  show ?case
  proof (cases "i < count")
    case False
    then have "unat count \<le> unat i"
      by (simp add: word_less_nat_alt)
    with False show ?thesis
      by (subst get_all_objects_loop.simps) simp
  next
    case True
    then have suc: "unat (i + 1) = Suc (unat i)"
      by (rule unat_succ_less)
    have "unat i < unat count"
      using True by (simp add: word_less_nat_alt)
    then have upt: "[unat i..<unat count] = unat i # [Suc (unat i)..<unat count]"
      by (rule upt_conv_Cons)
    show ?thesis
      using True "1.IH" suc upt by (subst get_all_objects_loop.simps) simp
  qed
qed

lemma get_all_objects_header_only:
  "get_all_objects s = map InHeader
     (filter (\<lambda>k. oe_state (objects s (InHeader k)) = ObjectState_u32 Alive)
        [0..<unat (object_count (header s))])"
  by (simp add: get_all_objects_def get_all_objects_loop_eq)

text \<open>
  Claim C5, evaluated on the session with two objects and a header pool of one entry.
  The second object was registered into the first overflow region and is alive with
  label \<open>y\<close>, and \<^verbatim>\<open>get_all_objects\<close> returns the header entry alone: by
  \<open>get_all_objects_header_only\<close> it never returns an entry of an overflow pool.
\<close>

theorem get_all_objects_misses_overflow:
  "ptr_to_entry demo_two_objects 0x100168 = Some (InOverflow 0 0)
   \<and> oe_state (objects demo_two_objects (InOverflow 0 0)) = ObjectState_u32 Alive
   \<and> string_view (oe_label (objects demo_two_objects (InOverflow 0 0))) = ''y''
   \<and> get_all_objects demo_two_objects = [InHeader 0]"
proof -
  have "get_all_objects demo_two_objects = [InHeader 0]"
    unfolding get_all_objects_header_only by (simp add: demo_defs manager_defs)
  moreover have "ptr_to_entry demo_two_objects 0x100168 = Some (InOverflow 0 0)
   \<and> oe_state (objects demo_two_objects (InOverflow 0 0)) = ObjectState_u32 Alive
   \<and> string_view (oe_label (objects demo_two_objects (InOverflow 0 0))) = ''y''"
    by (simp add: demo_defs manager_defs)
  ultimately show ?thesis
    by simp
qed

section \<open>RegionManager::allocate: growth\<close>

lemma unat_mask_split:
  fixes y :: "'a::len word"
  shows "unat y = unat (y AND mask k) + unat (y AND NOT (mask k))"
  by (metis (mono_tags, lifting) and_zero_eq disjunctive_add_eq_or
    mask_eq_iff unat_0 unsigned_and_eq unsigned_less unsigned_or_eq
    word_add_not word_and_not word_ao_dist2 word_bitwise_m1_simps(2)
    word_bw_lcs(1))

lemma unat_and_mask_less:
  fixes y :: "'a::len word"
  shows "unat (y AND mask k) < 2 ^ k"
  by (metis and_mask_lt_2p of_nat_less_numeral_power_cancel_iff of_nat_unat)

lemma unat_mask_u64:
  assumes "k < 64"
  shows "unat (mask k :: u64) = 2 ^ k - 1"
proof -
  have "(2::nat) ^ k < 2 ^ 64"
    using assms by (rule power_strict_increasing) simp
  then have small: "(2 ^ k - 1) mod 2 ^ 64 = (2::nat) ^ k - 1"
    by simp
  have "(mask k :: u64) = of_nat (mask k)"
    by (rule of_nat_mask_eq [symmetric])
  also have "(mask k :: nat) = 2 ^ k - 1"
    by (rule mask_eq_exp_minus_1)
  finally have "unat (mask k :: u64) = (2 ^ k - 1) mod 2 ^ 64"
    by (simp only: unat_of_nat) simp
  with small show ?thesis
    by simp
qed

lemma align_up_bounds:
  assumes k: "k < 64"
    and fits: "unat current + 2 ^ k - 1 < 2 ^ 64"
  shows "unat current \<le> unat (align_up current (2 ^ k))"
    and "unat (align_up current (2 ^ k)) \<le> unat current + 2 ^ k - 1"
proof -
  let ?y = "current + mask k"
  have mask: "unat (mask k :: u64) = 2 ^ k - 1"
    using k by (rule unat_mask_u64)
  have y: "unat ?y = unat current + (2 ^ k - 1)"
    using fits mask by (simp add: unat_word_ariths)
  have up: "align_up current (2 ^ k) = ?y AND NOT (mask k)"
    by (simp add: align_up_def mask_eq_decr_exp add_diff_eq)
  have "unat ?y = unat (?y AND mask k) + unat (?y AND NOT (mask k))"
    by (rule unat_mask_split)
  moreover have "unat (?y AND mask k) < 2 ^ k"
    by (rule unat_and_mask_less)
  ultimately show "unat current \<le> unat (align_up current (2 ^ k))"
    and "unat (align_up current (2 ^ k)) \<le> unat current + 2 ^ k - 1"
    using y up by simp_all
qed


lemma update_back_regions:
  "rs \<noteq> [] \<Longrightarrow> update_back f rs @ [r] = butlast rs @ [f (last rs), r]"
  by (simp add: update_back_def)

lemma update_back_snoc2:
  "update_back f (rs @ [a, r]) = rs @ [a, f r]"
  by (simp add: update_back_def butlast_append)

lemma allocate_growth:
  assumes cur: "current_region s = Some region"
    and full: "rd_size (r_descriptor region) < align_up (rd_used (r_descriptor region)) alignment + sz"
    and new_size: "new_size = min (max (sz + sizeof_RegionDescriptor env) (current_region_size s * 2))
          (max_region_size (config env))"
    and name: "shm_name = make_region_shm_name env (rm_session_name s) (next_region_id s)"
    and shm: "shm_create env shm_name (sizeof_RegionDescriptor env + new_size) = Some data"
  shows "allocate env sz alignment s =
        (Some (data + align_up (sizeof_RegionDescriptor env) alignment),
         s\<lparr>header := (header s)\<lparr>sequence := sequence (header s) + 1\<rparr>,
           current_region_size := new_size,
           next_region_id := next_region_id s + 1,
           regions := butlast (regions s) @
             [set_next_region_id (next_region_id s) region,
              \<lparr>r_shm = data, r_id = next_region_id s,
               r_descriptor = \<lparr>rd_region_id = next_region_id s,
                 rd_size = sizeof_RegionDescriptor env + new_size,
                 rd_used = align_up (sizeof_RegionDescriptor env) alignment + sz,
                 rd_next_region_id = 0, rd_shm_name = shm_name\<rparr>\<rparr>]\<rparr>)"
proof -
  from cur have ne: "regions s \<noteq> []" and last: "last (regions s) = region"
    by (auto simp: current_region_def split: if_splits)
  show ?thesis
    using cur full shm ne last
    unfolding allocate_def create_region_def new_size name
    by (simp add: Let_def bump_sequence_def update_back_regions update_back_snoc2 set_used_def)
qed

lemma init_True:
  assumes "init env session_name initial_size s0 = (True, s1)"
  shows "\<exists>region. current_region s1 = Some region
      \<and> rd_used (r_descriptor region) = sizeof_RegionDescriptor env
      \<and> rd_size (r_descriptor region) = sizeof_RegionDescriptor env + initial_size"
    and "current_region_size s1 = initial_size"
    and "rm_session_name s1 = session_name"
  using assms
  by (auto simp: init_def create_region_def current_region_def Let_def
      split: option.splits prod.splits)

lemma allocate_growth_fails:
  assumes cur: "current_region s = Some region"
    and full: "rd_size (r_descriptor region) < align_up (rd_used (r_descriptor region)) alignment + sz"
    and new_size: "new_size = min (max (sz + sizeof_RegionDescriptor env) (current_region_size s * 2))
          (max_region_size (config env))"
    and name: "shm_name = make_region_shm_name env (rm_session_name s) (next_region_id s)"
    and shm: "shm_create env shm_name (sizeof_RegionDescriptor env + new_size) = None"
  shows "allocate env sz alignment s =
        (None, s\<lparr>current_region_size := new_size, next_region_id := next_region_id s + 1\<rparr>)"
  using cur full shm
  unfolding allocate_def create_region_def new_size name
  by (simp add: Let_def)

text \<open>
  Claim C7, as the code has it. Let \<^verbatim>\<open>allocate(size, alignment)\<close> find that the
  aligned cursor plus the size exceeds the size of the current region. If the shared
  memory for the new region can be created, the call adds exactly one region, whose
  body has
  \<open>min (max (size + sizeof(RegionDescriptor)) (current_region_size * 2)) max_region_size\<close>
  bytes; the regions before it stay as they were except that the one that was current
  gets the new id as its \<^verbatim>\<open>next_region_id\<close>; the sequence of the header goes up by
  one; and when the aligned block fits into the new region, the call returns the
  pointer to it in the new mapping and the cursor of the new region covers the block
  and stays within the size of the region. If the shared memory cannot be created the
  call returns null, the chain is unchanged and so is the sequence. In particular,
  after \<^verbatim>\<open>init\<close> an allocation larger than the initial size that fits into the grown
  region returns a pointer (not null) behind the descriptor of a region that is new,
  for an alignment that is a power of two.
\<close>

theorem allocate_grows_one_region:
  "(current_region s = Some region
      \<and> rd_size (r_descriptor region) < align_up (rd_used (r_descriptor region)) alignment + sz
      \<and> new_size = min (max (sz + sizeof_RegionDescriptor env) (current_region_size s * 2))
            (max_region_size (config env))
      \<and> shm_name = make_region_shm_name env (rm_session_name s) (next_region_id s)
      \<and> s' = snd (allocate env sz alignment s)
    \<longrightarrow>
      (shm_create env shm_name (sizeof_RegionDescriptor env + new_size) = Some data \<longrightarrow>
         length (regions s') = Suc (length (regions s))
       \<and> butlast (regions s') = butlast (regions s) @
             [region\<lparr>r_descriptor := (r_descriptor region)
                \<lparr>rd_next_region_id := next_region_id s\<rparr>\<rparr>]
       \<and> r_id (last (regions s')) = next_region_id s
       \<and> r_shm (last (regions s')) = data
       \<and> rd_region_id (r_descriptor (last (regions s'))) = next_region_id s
       \<and> rd_size (r_descriptor (last (regions s'))) = sizeof_RegionDescriptor env + new_size
       \<and> rd_next_region_id (r_descriptor (last (regions s'))) = 0
       \<and> sequence (header s') = sequence (header s) + 1
       \<and> (unat (align_up (sizeof_RegionDescriptor env) alignment) + unat sz
             \<le> unat (sizeof_RegionDescriptor env + new_size) \<longrightarrow>
            fst (allocate env sz alignment s)
              = Some (data + align_up (sizeof_RegionDescriptor env) alignment)
          \<and> unat (rd_used (r_descriptor (last (regions s'))))
              = unat (align_up (sizeof_RegionDescriptor env) alignment) + unat sz
          \<and> rd_used (r_descriptor (last (regions s')))
              \<le> rd_size (r_descriptor (last (regions s')))))
    \<and> (shm_create env shm_name (sizeof_RegionDescriptor env + new_size) = None \<longrightarrow>
         fst (allocate env sz alignment s) = None
       \<and> regions s' = regions s
       \<and> sequence (header s') = sequence (header s)))
   \<and> (init env session_name initial_size s0 = (True, s1)
      \<and> initial_size < sz \<and> alignment = 2 ^ k \<and> k < 64
      \<and> unat (sizeof_RegionDescriptor env) + 2 ^ k - 1 < 2 ^ 64
      \<and> grown = sizeof_RegionDescriptor env
            + min (max (sz + sizeof_RegionDescriptor env) (initial_size * 2))
                (max_region_size (config env))
      \<and> shm_create env (make_region_shm_name env session_name (next_region_id s1)) grown
            = Some data
      \<and> unat (align_up (sizeof_RegionDescriptor env) alignment) + unat sz \<le> unat grown
    \<longrightarrow> fst (allocate env sz alignment s1)
          = Some (data + align_up (sizeof_RegionDescriptor env) alignment)
        \<and> length (regions (snd (allocate env sz alignment s1))) = Suc (length (regions s1))
        \<and> rd_size (r_descriptor (last (regions (snd (allocate env sz alignment s1))))) = grown
        \<and> sizeof_RegionDescriptor env \<le> align_up (sizeof_RegionDescriptor env) alignment
        \<and> rd_used (r_descriptor (last (regions (snd (allocate env sz alignment s1)))))
            \<le> rd_size (r_descriptor (last (regions (snd (allocate env sz alignment s1))))))"
proof (intro conjI impI; elim conjE)
  let ?rd = "sizeof_RegionDescriptor env"
  assume cur: "current_region s = Some region"
    and full: "rd_size (r_descriptor region) < align_up (rd_used (r_descriptor region)) alignment + sz"
    and new_size: "new_size = min (max (sz + ?rd) (current_region_size s * 2))
            (max_region_size (config env))"
    and name: "shm_name = make_region_shm_name env (rm_session_name s) (next_region_id s)"
    and s': "s' = snd (allocate env sz alignment s)"
  {
    assume shm: "shm_create env shm_name (?rd + new_size) = Some data"
    note grown = allocate_growth [OF cur full new_size name shm]
    from grown s' show "length (regions s') = Suc (length (regions s))"
      and "butlast (regions s') = butlast (regions s) @
             [region\<lparr>r_descriptor := (r_descriptor region)
                \<lparr>rd_next_region_id := next_region_id s\<rparr>\<rparr>]"
      and "r_id (last (regions s')) = next_region_id s"
      and "r_shm (last (regions s')) = data"
      and "rd_region_id (r_descriptor (last (regions s'))) = next_region_id s"
      and "rd_size (r_descriptor (last (regions s'))) = ?rd + new_size"
      and "rd_next_region_id (r_descriptor (last (regions s'))) = 0"
      and "sequence (header s') = sequence (header s) + 1"
      using cur
      by (auto simp: set_next_region_id_def butlast_append current_region_def split: if_splits)
    assume fits: "unat (align_up ?rd alignment) + unat sz \<le> unat (?rd + new_size)"
    have "unat (?rd + new_size) < 2 ^ 64"
      using unsigned_less [of "?rd + new_size", where 'a = nat] by simp
    with fits have sum: "unat (align_up ?rd alignment + sz) = unat (align_up ?rd alignment) + unat sz"
      by (simp add: unat_word_ariths)
    from grown s' show "fst (allocate env sz alignment s) = Some (data + align_up ?rd alignment)"
      by simp
    from grown s' sum show "unat (rd_used (r_descriptor (last (regions s'))))
        = unat (align_up ?rd alignment) + unat sz"
      by simp
    from grown s' sum fits show "rd_used (r_descriptor (last (regions s')))
        \<le> rd_size (r_descriptor (last (regions s')))"
      by (simp add: word_le_nat_alt)
  next
    assume shm: "shm_create env shm_name (?rd + new_size) = None"
    note failed = allocate_growth_fails [OF cur full new_size name shm]
    from failed s' show "fst (allocate env sz alignment s) = None"
      and "regions s' = regions s" and "sequence (header s') = sequence (header s)"
      by simp_all
  }
next
  let ?rd = "sizeof_RegionDescriptor env"
  let ?new_size = "min (max (sz + ?rd) (initial_size * 2)) (max_region_size (config env))"
  let ?s' = "snd (allocate env sz alignment s1)"
  assume init: "init env session_name initial_size s0 = (True, s1)"
    and larger: "initial_size < sz"
    and alignment: "alignment = 2 ^ k" and k: "k < 64"
    and nowrap: "unat ?rd + 2 ^ k - 1 < 2 ^ 64"
    and grown: "grown = ?rd + ?new_size"
    and shm: "shm_create env (make_region_shm_name env session_name (next_region_id s1)) grown
        = Some data"
    and fits: "unat (align_up ?rd alignment) + unat sz \<le> unat grown"
  from init_True [OF init] obtain region where cur: "current_region s1 = Some region"
    and used: "rd_used (r_descriptor region) = ?rd"
    and size: "rd_size (r_descriptor region) = ?rd + initial_size"
    and crs: "current_region_size s1 = initial_size"
    and name: "rm_session_name s1 = session_name"
    by blast
  from align_up_bounds(1) [OF k nowrap]
  have lower: "unat ?rd \<le> unat (align_up ?rd alignment)"
    by (simp add: alignment)
  have "unat grown < 2 ^ 64"
    using unsigned_less [of grown, where 'a = nat] by simp
  with fits have sum: "unat (align_up ?rd alignment + sz) = unat (align_up ?rd alignment) + unat sz"
    by (simp add: unat_word_ariths)
  have "unat (?rd + initial_size) \<le> unat ?rd + unat initial_size"
    by (simp add: unat_word_ariths)
  moreover have "unat initial_size < unat sz"
    using larger by (simp add: word_less_nat_alt)
  ultimately have "unat (?rd + initial_size) < unat (align_up ?rd alignment + sz)"
    using lower sum by simp
  then have full: "rd_size (r_descriptor region)
      < align_up (rd_used (r_descriptor region)) alignment + sz"
    by (simp add: used size word_less_nat_alt)
  have ne: "regions s1 \<noteq> []"
    using cur by (auto simp: current_region_def split: if_splits)
  have new_size: "?new_size = min (max (sz + ?rd) (current_region_size s1 * 2))
      (max_region_size (config env))"
    by (simp add: crs)
  have name': "make_region_shm_name env session_name (next_region_id s1)
      = make_region_shm_name env (rm_session_name s1) (next_region_id s1)"
    by (simp add: name)
  note result = allocate_growth [OF cur full new_size name' shm [unfolded grown]]
  from result ne show "fst (allocate env sz alignment s1) = Some (data + align_up ?rd alignment)"
    and "length (regions ?s') = Suc (length (regions s1))"
    and "rd_size (r_descriptor (last (regions ?s'))) = grown"
    by (simp_all add: grown)
  from lower show "?rd \<le> align_up ?rd alignment"
    by (simp add: word_le_nat_alt)
  from result sum fits show "rd_used (r_descriptor (last (regions ?s')))
      \<le> rd_size (r_descriptor (last (regions ?s')))"
    by (simp add: word_le_nat_alt grown)
qed

text \<open>
  Three instances in the concrete session: 4100 bytes allocated when 64 bytes of the
  first region are in use, the third data region that cannot be created, and 10 MiB
  allocated right after \<^verbatim>\<open>init\<close> with an initial size of 4 KiB.
\<close>

theorem allocate_grows_one_region_witness:
  "fst (allocate (demo_env demo_config) 4100 8 demo_allocated) = Some 0x200128
   \<and> map (\<lambda>r. (r_id r, r_shm r, rd_size (r_descriptor r), rd_used (r_descriptor r),
            rd_next_region_id (r_descriptor r)))
        (regions (snd (allocate (demo_env demo_config) 4100 8 demo_allocated)))
       = [(1, 0x100000, 4392, 360, 2), (2, 0x200000, 8488, 4396, 0)]
   \<and> sequence (header (snd (allocate (demo_env demo_config) 4100 8 demo_allocated)))
       = sequence (header demo_allocated) + 1
   \<and> fst (allocate (demo_env demo_config) 10000 8
        (run (demo_env demo_config) demo_operations
          (initial_state (demo_env demo_config) 1 1 1 (\<lambda>_. zero_entry)))) = None
   \<and> fst (allocate (demo_env demo_config) 10485760 8
          (snd (init (demo_env demo_config) ''demo'' 4096
            (initial_state (demo_env demo_config) 1 1 1 (\<lambda>_. zero_entry)))))
       = Some 0x200128
   \<and> length (regions (snd (allocate (demo_env demo_config) 10485760 8
          (snd (init (demo_env demo_config) ''demo'' 4096
            (initial_state (demo_env demo_config) 1 1 1 (\<lambda>_. zero_entry))))))) = 2"
proof -
  let ?E = "demo_env demo_config"
  let ?s0 = "initial_state ?E 1 1 1 (\<lambda>_. zero_entry)"
  let ?s1 = "snd (init ?E ''demo'' 4096 ?s0)"
  let ?a = demo_allocated
  let ?a' = "snd (allocate ?E 4100 8 ?a)"
  let ?r = "run ?E demo_operations ?s0"
  have rd: "sizeof_RegionDescriptor ?E = 296"
    by (simp add: demo_defs)
  \<comment> \<open>growth at \<open>demo_allocated\<close>\<close>
  have a: "current_region ?a = Some (last (regions ?a))"
    "rd_size (r_descriptor (last (regions ?a)))
      < align_up (rd_used (r_descriptor (last (regions ?a)))) 8 + 4100"
    "(8192 :: u64) = min (max (4100 + sizeof_RegionDescriptor ?E) (current_region_size ?a * 2))
        (max_region_size (config ?E))"
    "''mg.demo.r.2'' = make_region_shm_name ?E (rm_session_name ?a) (next_region_id ?a)"
    "shm_create ?E ''mg.demo.r.2'' (sizeof_RegionDescriptor ?E + 8192) = Some 0x200000"
    "unat (align_up (sizeof_RegionDescriptor ?E) 8) + unat (4100 :: u64)
      \<le> unat (sizeof_RegionDescriptor ?E + 8192)"
    by (simp_all add: demo_defs manager_defs)
  have before: "length (regions ?a) = 1" "butlast (regions ?a) = []" "next_region_id ?a = 2"
    "r_id (last (regions ?a)) = 1" "r_shm (last (regions ?a)) = 0x100000"
    "rd_size (r_descriptor (last (regions ?a))) = 4392"
    "rd_used (r_descriptor (last (regions ?a))) = 360"
    by (simp_all add: demo_defs manager_defs)
  have grown: "length (regions ?a') = Suc (length (regions ?a))
       \<and> butlast (regions ?a') = butlast (regions ?a) @
             [(last (regions ?a))\<lparr>r_descriptor := (r_descriptor (last (regions ?a)))
                \<lparr>rd_next_region_id := next_region_id ?a\<rparr>\<rparr>]
       \<and> r_id (last (regions ?a')) = next_region_id ?a
       \<and> r_shm (last (regions ?a')) = 0x200000
       \<and> rd_region_id (r_descriptor (last (regions ?a'))) = next_region_id ?a
       \<and> rd_size (r_descriptor (last (regions ?a'))) = sizeof_RegionDescriptor ?E + 8192
       \<and> rd_next_region_id (r_descriptor (last (regions ?a'))) = 0
       \<and> sequence (header ?a') = sequence (header ?a) + 1
       \<and> (unat (align_up (sizeof_RegionDescriptor ?E) 8) + unat (4100 :: u64)
             \<le> unat (sizeof_RegionDescriptor ?E + 8192) \<longrightarrow>
            fst (allocate ?E 4100 8 ?a) = Some (0x200000 + align_up (sizeof_RegionDescriptor ?E) 8)
          \<and> unat (rd_used (r_descriptor (last (regions ?a'))))
              = unat (align_up (sizeof_RegionDescriptor ?E) 8) + unat (4100 :: u64)
          \<and> rd_used (r_descriptor (last (regions ?a')))
              \<le> rd_size (r_descriptor (last (regions ?a'))))"
    by (rule allocate_grows_one_region [where s' = ?a' and shm_name = "''mg.demo.r.2''"
          and new_size = 8192 and region = "last (regions ?a)", THEN conjunct1, THEN mp, THEN conjunct1, THEN mp])
      (intro conjI a(1-5) refl)+
  then have fit: "fst (allocate ?E 4100 8 ?a) = Some (0x200000 + align_up (sizeof_RegionDescriptor ?E) 8)"
    and used: "unat (rd_used (r_descriptor (last (regions ?a'))))
              = unat (align_up (sizeof_RegionDescriptor ?E) 8) + unat (4100 :: u64)"
    using a(6) by blast+
  have two: "regions ?a' = butlast (regions ?a') @ [last (regions ?a')]"
    using grown by (metis append_butlast_last_id length_0_conv nat.distinct(1))
  have first: "fst (allocate ?E 4100 8 ?a) = Some 0x200128"
    using fit by (simp add: rd align_up_def)
  have "unat (rd_used (r_descriptor (last (regions ?a')))) = 4396"
    using used by (simp add: rd align_up_def)
  then have used': "rd_used (r_descriptor (last (regions ?a'))) = 4396"
    by (metis of_nat_unat ucast_id of_nat_numeral)
  have second: "map (\<lambda>r. (r_id r, r_shm r, rd_size (r_descriptor r), rd_used (r_descriptor r),
            rd_next_region_id (r_descriptor r))) (regions ?a')
       = [(1, 0x100000, 4392, 360, 2), (2, 0x200000, 8488, 4396, 0)]"
    by (subst two) (use grown used' in \<open>simp add: before rd\<close>)
  have third: "sequence (header ?a') = sequence (header ?a) + 1"
    using grown by blast
  \<comment> \<open>the third data region cannot be created\<close>
  have r: "current_region ?r = Some (last (regions ?r))"
    "rd_size (r_descriptor (last (regions ?r)))
      < align_up (rd_used (r_descriptor (last (regions ?r)))) 8 + 10000"
    "(16384 :: u64) = min (max (10000 + sizeof_RegionDescriptor ?E) (current_region_size ?r * 2))
        (max_region_size (config ?E))"
    "''mg.demo.r.3'' = make_region_shm_name ?E (rm_session_name ?r) (next_region_id ?r)"
    "shm_create ?E ''mg.demo.r.3'' (sizeof_RegionDescriptor ?E + 16384) = None"
    by (simp_all add: run_def demo_defs manager_defs)
  have "fst (allocate ?E 10000 8 ?r) = None
       \<and> regions (snd (allocate ?E 10000 8 ?r)) = regions ?r
       \<and> sequence (header (snd (allocate ?E 10000 8 ?r))) = sequence (header ?r)"
    by (rule allocate_grows_one_region [where s' = "snd (allocate ?E 10000 8 ?r)"
          and shm_name = "''mg.demo.r.3''" and new_size = 16384
          and region = "last (regions ?r)",
          THEN conjunct1, THEN mp, THEN conjunct2, THEN mp])
      (intro conjI r refl)+
  then have fourth: "fst (allocate ?E 10000 8 ?r) = None"
    by blast
  \<comment> \<open>10 MiB right after \<open>init\<close>\<close>
  have i: "init ?E ''demo'' 4096 ?s0 = (True, ?s1)"
    "(4096 :: u64) < 10485760" "(8 :: u64) = 2 ^ 3" "(3 :: nat) < 64"
    "unat (sizeof_RegionDescriptor ?E) + 2 ^ 3 - 1 < 2 ^ 64"
    "(10486352 :: u64) = sizeof_RegionDescriptor ?E
        + min (max (10485760 + sizeof_RegionDescriptor ?E) (4096 * 2))
            (max_region_size (config ?E))"
    "shm_create ?E (make_region_shm_name ?E ''demo'' (next_region_id ?s1)) 10486352
      = Some 0x200000"
    "unat (align_up (sizeof_RegionDescriptor ?E) 8) + unat (10485760 :: u64)
      \<le> unat (10486352 :: u64)"
    by (simp_all add: demo_defs manager_defs)
  have "fst (allocate ?E 10485760 8 ?s1)
          = Some (0x200000 + align_up (sizeof_RegionDescriptor ?E) 8)
        \<and> length (regions (snd (allocate ?E 10485760 8 ?s1))) = Suc (length (regions ?s1))
        \<and> rd_size (r_descriptor (last (regions (snd (allocate ?E 10485760 8 ?s1))))) = 10486352
        \<and> sizeof_RegionDescriptor ?E \<le> align_up (sizeof_RegionDescriptor ?E) 8
        \<and> rd_used (r_descriptor (last (regions (snd (allocate ?E 10485760 8 ?s1)))))
            \<le> rd_size (r_descriptor (last (regions (snd (allocate ?E 10485760 8 ?s1)))))"
    by (rule allocate_grows_one_region [where k = 3 and grown = 10486352 and ?s0.0 = ?s0
          and session_name = "''demo''" and initial_size = 4096, THEN conjunct2, THEN mp])
      (intro conjI i)
  moreover have "length (regions ?s1) = 1"
    by (simp add: demo_defs manager_defs)
  ultimately have fifth: "fst (allocate ?E 10485760 8 ?s1) = Some 0x200128"
    and sixth: "length (regions (snd (allocate ?E 10485760 8 ?s1))) = 2"
    by (simp_all add: rd align_up_def)
  from first second third fourth fifth sixth show ?thesis
    by blast
qed

text \<open>
  Claim C7 as stated fails in two ways. After \<^verbatim>\<open>init\<close> with 4096 bytes,
  \<^verbatim>\<open>allocate(8000, 4096)\<close> creates region 2 of size 8592 and returns its offset 4096,
  with the cursor at 12096: the block is not inside the new region. And when the
  session has two data regions and a third cannot be created, an allocation that does
  not fit returns null and the chain keeps its two regions.
\<close>

theorem allocation_outside_new_region_counterexample:
  "fst (allocate (demo_env demo_config) 8000 4096 (demo_start demo_config 1)) = Some 0x201000
   \<and> map (\<lambda>r. (r_id r, r_shm r, rd_size (r_descriptor r), rd_used (r_descriptor r)))
        (regions (snd (allocate (demo_env demo_config) 8000 4096 (demo_start demo_config 1))))
       = [(1, 0x100000, 4392, 296), (2, 0x200000, 8592, 12096)]
   \<and> \<not> rd_used (r_descriptor (last (regions
          (snd (allocate (demo_env demo_config) 8000 4096 (demo_start demo_config 1))))))
       \<le> rd_size (r_descriptor (last (regions
          (snd (allocate (demo_env demo_config) 8000 4096 (demo_start demo_config 1))))))
   \<and> rd_size (r_descriptor (last (regions (run (demo_env demo_config) demo_operations
          (initial_state (demo_env demo_config) 1 1 1 (\<lambda>_. zero_entry))))))
       < align_up (rd_used (r_descriptor (last (regions (run (demo_env demo_config)
           demo_operations (initial_state (demo_env demo_config) 1 1 1 (\<lambda>_. zero_entry)))))))
           8 + 10000
   \<and> fst (allocate (demo_env demo_config) 10000 8
        (run (demo_env demo_config) demo_operations
          (initial_state (demo_env demo_config) 1 1 1 (\<lambda>_. zero_entry)))) = None
   \<and> length (regions (snd (allocate (demo_env demo_config) 10000 8
        (run (demo_env demo_config) demo_operations
          (initial_state (demo_env demo_config) 1 1 1 (\<lambda>_. zero_entry)))))) = 2"
  by (simp add: run_def demo_defs manager_defs)

section \<open>header.sequence\<close>

lemma sequence_less_succ:
  fixes x :: u64
  assumes "unat x + 2 < 2 ^ 64"
  shows "x < x + 1" and "x < x + 1 + 1"
proof -
  have "unat (x + 1) = unat x + 1" and "unat (x + 1 + 1) = unat x + 2"
    using assms by (simp_all add: unat_word_ariths)
  then show "x < x + 1" and "x < x + 1 + 1"
    by (simp_all add: word_less_nat_alt)
qed

lemma allocate_sequence:
  "sequence (header (snd (allocate env sz alignment s))) =
     (if length (regions s) < length (regions (snd (allocate env sz alignment s)))
      then sequence (header s) + 1 else sequence (header s))"
  by (auto simp: allocate_def create_region_def bump_sequence_def Let_def
      split: option.splits prod.splits)

lemma create_overflow_region_sequence:
  "sequence (header (snd (create_overflow_region env s))) =
     (if fst (create_overflow_region env s) = None then sequence (header s)
      else sequence (header s) + 1)"
  and create_overflow_region_length:
  "length (overflow_regions (snd (create_overflow_region env s))) =
     (if fst (create_overflow_region env s) = None then length (overflow_regions s)
      else Suc (length (overflow_regions s)))"
  by (auto simp: create_overflow_region_def bump_sequence_def Let_def split: option.splits)

lemma allocate_object_entry_sequence:
  "sequence (header (snd (allocate_object_entry env s))) =
     (if length (overflow_regions s) < length (overflow_regions (snd (allocate_object_entry env s)))
      then sequence (header s) + 1 else sequence (header s))"
  using create_overflow_region_sequence [of env s] create_overflow_region_length [of env s]
  by (auto simp: allocate_object_entry_def object_entry_new_region_def Let_def
      split: option.splits prod.splits)

lemma allocate_type_entry_sequence:
  "sequence (header (snd (allocate_type_entry env s))) =
     (if length (overflow_regions s) < length (overflow_regions (snd (allocate_type_entry env s)))
      then sequence (header s) + 1 else sequence (header s))"
  using create_overflow_region_sequence [of env s] create_overflow_region_length [of env s]
  by (auto simp: allocate_type_entry_def type_entry_new_region_def Let_def
      split: option.splits prod.splits)

lemma allocate_field_entries_sequence:
  "sequence (header (snd (allocate_field_entries env n s))) =
     (if length (overflow_regions s) < length (overflow_regions (snd (allocate_field_entries env n s)))
      then sequence (header s) + 1 else sequence (header s))"
  using create_overflow_region_sequence [of env s] create_overflow_region_length [of env s]
  by (auto simp: allocate_field_entries_def field_entries_new_region_def Let_def
      split: option.splits prod.splits)

lemma run_writes_header [simp]:
  "header (run_writes (initialize_entry env entry type_id region_id offset label) s) = header s"
  by (simp add: run_writes_def initialize_entry_def write_entry_def)

lemma register_object_sequence:
  "fst (register_object env p type_id label s) \<noteq> None \<Longrightarrow>
     sequence (header (snd (register_object env p type_id label s)))
       = sequence (header (snd (allocate_object_entry env s))) + 1"
  by (auto simp: register_object_def bump_sequence_def Let_def split: option.splits prod.splits)

lemma init_sequence:
  "sequence (header (snd (init env session_name initial_size s))) = sequence (header s)"
  by (auto simp: init_def create_region_def Let_def split: option.splits prod.splits)

lemma init_publishes:
  assumes "fst (init env session_name initial_size s)"
  shows "first_region_id (header (snd (init env session_name initial_size s)))
      = next_region_id s
    \<and> map r_id (regions (snd (init env session_name initial_size s)))
      = map r_id (regions s) @ [next_region_id s]"
  using assms
  by (auto simp: init_def create_region_def Let_def map_update_back set_next_region_id_def
      split: option.splits prod.splits)

text \<open>
  Claim C3, as the code has it. As long as the 64-bit counter is not about to wrap
  around, \<^verbatim>\<open>header.sequence\<close> is strictly greater after \<^verbatim>\<open>allocate\<close> has created a
  data region, after a successful \<^verbatim>\<open>register_object\<close>, after \<^verbatim>\<open>destroy_object\<close> of a
  registered pointer, and after an overflow region has been created (by
  \<^verbatim>\<open>create_overflow_region\<close>, so by any of the three allocators). \<^verbatim>\<open>init\<close> leaves
  the sequence as it was; when it succeeds it has appended one region with the next id
  to the chain and stored that id in \<^verbatim>\<open>header.first_region_id\<close>.
\<close>

theorem sequence_increases:
  "unat (sequence (header s)) + 2 < 2 ^ 64 \<longrightarrow>
     (length (regions s) < length (regions (snd (allocate env sz alignment s)))
        \<longrightarrow> sequence (header s) < sequence (header (snd (allocate env sz alignment s))))
   \<and> (fst (register_object env p type_id label s) \<noteq> None
        \<longrightarrow> sequence (header s) < sequence (header (snd (register_object env p type_id label s))))
   \<and> (ptr_to_entry s p \<noteq> None
        \<longrightarrow> sequence (header s) < sequence (header (destroy_object p s)))
   \<and> (fst (create_overflow_region env s) \<noteq> None
        \<longrightarrow> sequence (header s) < sequence (header (snd (create_overflow_region env s))))
   \<and> (length (overflow_regions s) < length (overflow_regions (snd (allocate_object_entry env s)))
        \<longrightarrow> sequence (header s) < sequence (header (snd (allocate_object_entry env s))))
   \<and> (length (overflow_regions s) < length (overflow_regions (snd (allocate_type_entry env s)))
        \<longrightarrow> sequence (header s) < sequence (header (snd (allocate_type_entry env s))))
   \<and> (length (overflow_regions s) < length (overflow_regions (snd (allocate_field_entries env n s)))
        \<longrightarrow> sequence (header s) < sequence (header (snd (allocate_field_entries env n s))))
   \<and> sequence (header (snd (init env session_name initial_size s))) = sequence (header s)
   \<and> (fst (init env session_name initial_size s)
        \<longrightarrow> first_region_id (header (snd (init env session_name initial_size s)))
              = next_region_id s
          \<and> map r_id (regions (snd (init env session_name initial_size s)))
              = map r_id (regions s) @ [next_region_id s])"
proof (intro impI conjI)
  assume bound: "unat (sequence (header s)) + 2 < 2 ^ 64"
  note less = sequence_less_succ [OF bound]
  show "sequence (header s) < sequence (header (snd (allocate env sz alignment s)))"
    if "length (regions s) < length (regions (snd (allocate env sz alignment s)))"
    using that less by (simp add: allocate_sequence)
  show "sequence (header s) < sequence (header (snd (register_object env p type_id label s)))"
    if "fst (register_object env p type_id label s) \<noteq> None"
    using register_object_sequence [OF that] less
    by (simp add: allocate_object_entry_sequence)
  show "sequence (header s) < sequence (header (destroy_object p s))"
    if "ptr_to_entry s p \<noteq> None"
    using that less
    by (auto simp: destroy_object_def bump_sequence_def write_entry_def Let_def)
  show "sequence (header s) < sequence (header (snd (create_overflow_region env s)))"
    if "fst (create_overflow_region env s) \<noteq> None"
    using that less by (simp add: create_overflow_region_sequence)
  show "sequence (header s) < sequence (header (snd (allocate_object_entry env s)))"
    if "length (overflow_regions s) < length (overflow_regions (snd (allocate_object_entry env s)))"
    using that less by (simp add: allocate_object_entry_sequence)
  show "sequence (header s) < sequence (header (snd (allocate_type_entry env s)))"
    if "length (overflow_regions s) < length (overflow_regions (snd (allocate_type_entry env s)))"
    using that less by (simp add: allocate_type_entry_sequence)
  show "sequence (header s) < sequence (header (snd (allocate_field_entries env n s)))"
    if "length (overflow_regions s) < length (overflow_regions (snd (allocate_field_entries env n s)))"
    using that less by (simp add: allocate_field_entries_sequence)
  show "sequence (header (snd (init env session_name initial_size s))) = sequence (header s)"
    by (rule init_sequence)
  show "first_region_id (header (snd (init env session_name initial_size s)))
      = next_region_id s"
    and "map r_id (regions (snd (init env session_name initial_size s)))
      = map r_id (regions s) @ [next_region_id s]"
    if "fst (init env session_name initial_size s)"
    using init_publishes [OF that] by simp_all
qed

theorem sequence_increases_witness:
  "unat (sequence (header demo_one_object)) + 2 < 2 ^ 64
   \<and> length (regions demo_one_object)
       < length (regions (snd (allocate (demo_env demo_config) 4100 8 demo_one_object)))
   \<and> sequence (header demo_one_object)
       < sequence (header (snd (allocate (demo_env demo_config) 4100 8 demo_one_object)))
   \<and> fst (register_object (demo_env demo_config) 0x100168 7 ''y'' demo_one_object) \<noteq> None
   \<and> sequence (header demo_one_object)
       < sequence (header (snd (register_object (demo_env demo_config) 0x100168 7 ''y''
           demo_one_object)))
   \<and> ptr_to_entry demo_one_object 0x100128 \<noteq> None
   \<and> sequence (header demo_one_object)
       < sequence (header (destroy_object 0x100128 demo_one_object))
   \<and> fst (create_overflow_region (demo_env demo_config) demo_one_object) \<noteq> None
   \<and> sequence (header demo_one_object)
       < sequence (header (snd (create_overflow_region (demo_env demo_config) demo_one_object)))
   \<and> sequence (header (snd (allocate_object_entry (demo_env demo_config) demo_one_object))) = 2
   \<and> sequence (header (snd (allocate_type_entry (demo_env demo_config)
         (snd (allocate_type_entry (demo_env demo_config) demo_one_object))))) = 2
   \<and> sequence (header (snd (allocate_field_entries (demo_env demo_config) 2 demo_one_object))) = 2
   \<and> fst (init (demo_env demo_config) ''demo'' 4096
        (initial_state (demo_env demo_config) 1 1 1 (\<lambda>_. zero_entry)))
   \<and> first_region_id (header (snd (init (demo_env demo_config) ''demo'' 4096
        (initial_state (demo_env demo_config) 1 1 1 (\<lambda>_. zero_entry))))) = 1
   \<and> map r_id (regions (snd (init (demo_env demo_config) ''demo'' 4096
        (initial_state (demo_env demo_config) 1 1 1 (\<lambda>_. zero_entry))))) = [1]
   \<and> sequence (header (snd (init (demo_env demo_config) ''demo'' 4096
        (initial_state (demo_env demo_config) 1 1 1 (\<lambda>_. zero_entry))))) = 0"
proof -
  let ?E = "demo_env demo_config"
  let ?s = demo_one_object
  let ?f = "initial_state ?E 1 1 1 (\<lambda>_. zero_entry)"
  have fresh: "unat (sequence (header ?f)) + 2 < 2 ^ 64" "sequence (header ?f) = 0"
    "next_region_id ?f = 1" "regions ?f = []"
    by (simp_all add: demo_defs)
  have started: "fst (init ?E ''demo'' 4096 ?f)"
    by (simp add: demo_defs manager_defs)
  have published: "first_region_id (header (snd (init ?E ''demo'' 4096 ?f))) = next_region_id ?f
      \<and> map r_id (regions (snd (init ?E ''demo'' 4096 ?f)))
          = map r_id (regions ?f) @ [next_region_id ?f]
      \<and> sequence (header (snd (init ?E ''demo'' 4096 ?f))) = sequence (header ?f)"
    using sequence_increases [where s = ?f and env = ?E and session_name = "''demo''"
        and initial_size = 4096] fresh(1) started
    by blast
  then have at_init: "first_region_id (header (snd (init ?E ''demo'' 4096 ?f))) = 1"
    "map r_id (regions (snd (init ?E ''demo'' 4096 ?f))) = [1]"
    "sequence (header (snd (init ?E ''demo'' 4096 ?f))) = 0"
    by (simp_all add: fresh)
  let ?t = "snd (allocate_type_entry ?E ?s)"
  have seq: "sequence (header ?s) = 1" "sequence (header ?t) = 1"
    by (simp_all add: demo_defs manager_defs)
  have bound: "unat (sequence (header ?s)) + 2 < 2 ^ 64" "unat (sequence (header ?t)) + 2 < 2 ^ 64"
    by (simp_all add: seq)
  have grows: "length (regions ?s) < length (regions (snd (allocate ?E 4100 8 ?s)))"
    by (simp add: demo_defs manager_defs)
  have reg: "fst (register_object ?E 0x100168 7 ''y'' ?s) \<noteq> None"
    by (simp add: demo_defs manager_defs)
  have ptr: "ptr_to_entry ?s 0x100128 \<noteq> None"
    by (simp add: demo_defs manager_defs)
  have ovf: "fst (create_overflow_region ?E ?s) \<noteq> None"
    by (simp add: demo_defs manager_defs)
  have obj: "length (overflow_regions ?s) < length (overflow_regions (snd (allocate_object_entry ?E ?s)))"
    by (simp add: demo_defs manager_defs)
  have by_type: "length (overflow_regions ?t) < length (overflow_regions (snd (allocate_type_entry ?E ?t)))"
    by (simp add: demo_defs manager_defs)
  have fld: "length (overflow_regions ?s)
      < length (overflow_regions (snd (allocate_field_entries ?E 2 ?s)))"
    by (simp add: demo_defs manager_defs word_le_nat_alt)
  have "sequence (header ?s) < sequence (header (snd (allocate ?E 4100 8 ?s)))"
    using sequence_increases [where s = ?s and env = ?E and sz = 4100 and alignment = 8] bound grows
    by blast
  moreover have "sequence (header ?s)
      < sequence (header (snd (register_object ?E 0x100168 7 ''y'' ?s)))"
    using sequence_increases [where s = ?s and env = ?E and p = "0x100168" and type_id = 7
        and label = "''y''"] bound reg
    by blast
  moreover have "sequence (header ?s) < sequence (header (destroy_object 0x100128 ?s))"
    using sequence_increases [where s = ?s and p = "0x100128"] bound ptr
    by blast
  moreover have "sequence (header ?s) < sequence (header (snd (create_overflow_region ?E ?s)))"
    using sequence_increases [where s = ?s and env = ?E] bound ovf
    by blast
  moreover have "sequence (header ?s) < sequence (header (snd (allocate_object_entry ?E ?s)))"
    using sequence_increases [where s = ?s and env = ?E] bound obj
    by blast
  moreover have "sequence (header ?t) < sequence (header (snd (allocate_type_entry ?E ?t)))"
    using sequence_increases [where s = ?t and env = ?E] bound by_type
    by blast
  moreover have "sequence (header ?s) < sequence (header (snd (allocate_field_entries ?E 2 ?s)))"
    using sequence_increases [where s = ?s and env = ?E and n = 2] bound fld
    by blast
  moreover have "sequence (header (snd (allocate_object_entry ?E ?s))) = 2"
    "sequence (header (snd (allocate_type_entry ?E ?t))) = 2"
    "sequence (header (snd (allocate_field_entries ?E 2 ?s))) = 2"
    by (simp_all add: demo_defs manager_defs word_le_nat_alt)
  ultimately show ?thesis
    using bound grows reg ptr ovf started at_init by blast
qed

text \<open>
  Claim C3 as stated fails for the first region: \<^verbatim>\<open>init\<close> succeeds on the fresh
  producer and creates region 1, and the sequence is not greater than before.
\<close>

theorem init_keeps_sequence_counterexample:
  "regions (initial_state (demo_env demo_config) 1 1 1 (\<lambda>_. zero_entry)) = []
   \<and> fst (init (demo_env demo_config) ''demo'' 4096
        (initial_state (demo_env demo_config) 1 1 1 (\<lambda>_. zero_entry)))
   \<and> map r_id (regions (snd (init (demo_env demo_config) ''demo'' 4096
        (initial_state (demo_env demo_config) 1 1 1 (\<lambda>_. zero_entry))))) = [1]
   \<and> \<not> sequence (header (initial_state (demo_env demo_config) 1 1 1 (\<lambda>_. zero_entry)))
       < sequence (header (snd (init (demo_env demo_config) ''demo'' 4096
          (initial_state (demo_env demo_config) 1 1 1 (\<lambda>_. zero_entry)))))"
  by (simp add: demo_defs manager_defs)

section \<open>Header pools and overflow regions\<close>

lemma u32_sum_fits:
  fixes a n c :: u32
  assumes "unat a + unat n \<le> unat c"
  shows "a + n \<le> c"
proof -
  have "unat c < 2 ^ 32"
    using unsigned_less [of c, where 'a = nat] by simp
  with assms have "unat (a + n) = unat a + unat n"
    by (simp add: unat_word_ariths)
  with assms show ?thesis
    by (simp add: word_le_nat_alt)
qed

text \<open>
  Claim C4, as the code has it. Each allocator looks at its own pool only. When
  \<^verbatim>\<open>allocate_object_entry\<close> or \<^verbatim>\<open>allocate_type_entry\<close> creates an overflow region,
  the header pool of that kind is full and so is the matching sub-pool of the current
  overflow region, if there is one; when \<^verbatim>\<open>allocate_field_entries(n)\<close> creates one,
  the header field pool and the field sub-pool of the current overflow region have
  fewer than \<open>n\<close> free slots each. The two other header pools play no part.
\<close>

theorem overflow_region_only_when_own_pool_is_full:
  "(length (overflow_regions s) < length (overflow_regions (snd (allocate_object_entry env s)))
      \<longrightarrow> object_dir_capacity (header s) \<le> object_count (header s)
        \<and> (\<forall>r. current_overflow_region s = Some r \<longrightarrow>
              mo_object_entry_capacity (o_descriptor r) \<le> mo_object_entry_count (o_descriptor r)))
   \<and> (length (overflow_regions s) < length (overflow_regions (snd (allocate_type_entry env s)))
      \<longrightarrow> type_registry_capacity (header s) \<le> type_count (header s)
        \<and> (\<forall>r. current_overflow_region s = Some r \<longrightarrow>
              mo_type_entry_capacity (o_descriptor r) \<le> mo_type_entry_count (o_descriptor r)))
   \<and> (length (overflow_regions s) < length (overflow_regions (snd (allocate_field_entries env n s)))
      \<longrightarrow> unat (field_entries_capacity (header s)) < unat (field_count (header s)) + unat n
        \<and> (\<forall>r. current_overflow_region s = Some r \<longrightarrow>
              unat (mo_field_entry_capacity (o_descriptor r))
                < unat (mo_field_entry_count (o_descriptor r)) + unat n))"
proof (intro conjI impI)
  assume "length (overflow_regions s) < length (overflow_regions (snd (allocate_object_entry env s)))"
  then show "object_dir_capacity (header s) \<le> object_count (header s)"
    and "\<forall>r. current_overflow_region s = Some r \<longrightarrow>
           mo_object_entry_capacity (o_descriptor r) \<le> mo_object_entry_count (o_descriptor r)"
    by (auto simp: allocate_object_entry_def Let_def split: if_splits option.splits)
next
  assume "length (overflow_regions s) < length (overflow_regions (snd (allocate_type_entry env s)))"
  then show "type_registry_capacity (header s) \<le> type_count (header s)"
    and "\<forall>r. current_overflow_region s = Some r \<longrightarrow>
           mo_type_entry_capacity (o_descriptor r) \<le> mo_type_entry_count (o_descriptor r)"
    by (auto simp: allocate_type_entry_def Let_def split: if_splits option.splits)
next
  assume grows: "length (overflow_regions s)
      < length (overflow_regions (snd (allocate_field_entries env n s)))"
  then have header_full: "\<not> field_count (header s) + n \<le> field_entries_capacity (header s)"
    and current_full: "\<forall>r. current_overflow_region s = Some r \<longrightarrow>
          \<not> mo_field_entry_count (o_descriptor r) + n \<le> mo_field_entry_capacity (o_descriptor r)"
    by (auto simp: allocate_field_entries_def Let_def split: if_splits option.splits)
  from header_full show "unat (field_entries_capacity (header s)) < unat (field_count (header s)) + unat n"
    using u32_sum_fits [of "field_count (header s)" n "field_entries_capacity (header s)"]
    by linarith
  from current_full show "\<forall>r. current_overflow_region s = Some r \<longrightarrow>
      unat (mo_field_entry_capacity (o_descriptor r))
        < unat (mo_field_entry_count (o_descriptor r)) + unat n"
    using u32_sum_fits [of _ n] by (meson not_le_imp_less)
qed

theorem overflow_region_only_when_own_pool_is_full_witness:
  "length (overflow_regions demo_object_pool_full)
     < length (overflow_regions (snd (allocate_object_entry (demo_env demo_config)
         demo_object_pool_full)))
   \<and> object_dir_capacity (header demo_object_pool_full)
       \<le> object_count (header demo_object_pool_full)
   \<and> length (overflow_regions (snd (allocate_type_entry (demo_env demo_config)
         demo_object_pool_full)))
     < length (overflow_regions (snd (allocate_type_entry (demo_env demo_config)
         (snd (allocate_type_entry (demo_env demo_config) demo_object_pool_full)))))
   \<and> type_registry_capacity (header (snd (allocate_type_entry (demo_env demo_config)
         demo_object_pool_full)))
       \<le> type_count (header (snd (allocate_type_entry (demo_env demo_config)
         demo_object_pool_full)))
   \<and> length (overflow_regions demo_object_pool_full)
     < length (overflow_regions (snd (allocate_field_entries (demo_env demo_config) 2
         demo_object_pool_full)))
   \<and> unat (field_entries_capacity (header demo_object_pool_full))
       < unat (field_count (header demo_object_pool_full)) + unat (2 :: u32)"
proof -
  let ?E = "demo_env demo_config"
  let ?s = demo_object_pool_full
  let ?t = "snd (allocate_type_entry ?E ?s)"
  have by_object: "length (overflow_regions ?s)
      < length (overflow_regions (snd (allocate_object_entry ?E ?s)))"
    by (simp add: demo_defs manager_defs)
  have by_type: "length (overflow_regions ?t)
      < length (overflow_regions (snd (allocate_type_entry ?E ?t)))"
    by (simp add: demo_defs manager_defs)
  have by_field: "length (overflow_regions ?s)
      < length (overflow_regions (snd (allocate_field_entries ?E 2 ?s)))"
    by (simp add: demo_defs manager_defs word_le_nat_alt)
  have "object_dir_capacity (header ?s) \<le> object_count (header ?s)"
    using overflow_region_only_when_own_pool_is_full [where s = ?s and env = ?E] by_object
    by blast
  moreover have "type_registry_capacity (header ?t) \<le> type_count (header ?t)"
    using overflow_region_only_when_own_pool_is_full [where s = ?t and env = ?E] by_type
    by blast
  moreover have "unat (field_entries_capacity (header ?s))
      < unat (field_count (header ?s)) + unat (2 :: u32)"
    using overflow_region_only_when_own_pool_is_full [where s = ?s and env = ?E and n = 2]
      by_field
    by blast
  ultimately show ?thesis
    using by_object by_type by_field by blast
qed

text \<open>
  Claim C4 as stated fails: with the object directory full, the type registry and the
  field pool of the header unused and no overflow region yet,
  \<^verbatim>\<open>allocate_object_entry\<close> creates the first overflow region.
\<close>

theorem overflow_region_with_free_header_pools_counterexample:
  "overflow_regions demo_object_pool_full = []
   \<and> type_count (header demo_object_pool_full)
       < type_registry_capacity (header demo_object_pool_full)
   \<and> field_count (header demo_object_pool_full)
       < field_entries_capacity (header demo_object_pool_full)
   \<and> length (overflow_regions (snd (allocate_object_entry (demo_env demo_config)
         demo_object_pool_full))) = 1"
  by (simp add: demo_defs manager_defs)

section \<open>Region ids\<close>

lemma ids_ordered_start: "ids_ordered [] 1"
  by (simp add: ids_ordered_def)

lemma ids_ordered_step:
  assumes inv: "ids_ordered ids next"
    and step: "ids_step ids next ids' next'"
    and bound: "unat next + 1 < 2 ^ 64"
  shows "ids_ordered ids' next'" and "unat next' \<le> unat next + 1"
proof -
  have suc: "unat (next + 1) = Suc (unat next)"
    using bound by (simp add: unat_word_ariths)
  then have less: "next < next + 1"
    by (simp add: word_less_nat_alt)
  from inv have len: "length ids < unat next" and sorted: "sorted_wrt (<) ids"
    and range: "\<forall>i \<in> set ids. 1 \<le> i \<and> i < next"
    and exact: "unat next = Suc (length ids) \<longrightarrow> ids = map of_nat [1..<Suc (length ids)]"
    by (simp_all add: ids_ordered_def)
  have one: "1 \<le> next"
    using len by (simp add: word_le_nat_alt)
  have snoc: "ids_ordered (ids @ [next]) (next + 1)"
  proof -
    have "ids @ [next] = map of_nat [1..<Suc (Suc (length ids))]" if "unat next = Suc (length ids)"
    proof -
      have "next = of_nat (Suc (length ids))"
        using that by (metis of_nat_unat ucast_id)
      with exact that show ?thesis
        by simp
    qed
    then show ?thesis
      using len sorted range less one suc
      by (auto simp: ids_ordered_def sorted_wrt_append)
  qed
  have skip: "ids_ordered ids (next + 1)"
    using len sorted range less suc by (auto simp: ids_ordered_def)
  from step snoc skip inv show "ids_ordered ids' next'"
    by (auto simp: ids_step_def)
  from step suc show "unat next' \<le> unat next + 1"
    by (auto simp: ids_step_def)
qed
lemma map_r_id_update_back [simp]:
  "map r_id (update_back (set_next_region_id n) rs) = map r_id rs"
  "map r_id (update_back (set_used n) rs) = map r_id rs"
  by (simp_all add: map_update_back set_next_region_id_def set_used_def)

lemma map_o_id_update_back [simp]:
  "map o_id (update_back (set_overflow_next_region_id n) rs) = map o_id rs"
  "map o_id (update_back (set_object_entry_count c) rs) = map o_id rs"
  "map o_id (update_back (set_type_entry_count c) rs) = map o_id rs"
  "map o_id (update_back (set_field_entry_count c) rs) = map o_id rs"
  by (simp_all add: map_update_back set_overflow_next_region_id_def set_object_entry_count_def
      set_type_entry_count_def set_field_entry_count_def)
lemma create_region_step:
  "ids_step (map r_id (regions s)) (next_region_id s)
     (map r_id (regions (snd (create_region env sz s))))
     (next_region_id (snd (create_region env sz s)))"
  "map o_id (overflow_regions (snd (create_region env sz s))) = map o_id (overflow_regions s)"
  "next_overflow_id (snd (create_region env sz s)) = next_overflow_id s"
  by (auto simp: create_region_def ids_step_def Let_def split: option.splits)

lemma create_overflow_region_step:
  "ids_step (map o_id (overflow_regions s)) (next_overflow_id s)
     (map o_id (overflow_regions (snd (create_overflow_region env s))))
     (next_overflow_id (snd (create_overflow_region env s)))"
  "map r_id (regions (snd (create_overflow_region env s))) = map r_id (regions s)"
  "next_region_id (snd (create_overflow_region env s)) = next_region_id s"
  by (auto simp: create_overflow_region_def ids_step_def bump_sequence_def Let_def
      split: option.splits)

lemma create_region_stepD:
  assumes "create_region env sz s = (r, s')"
  shows "ids_step (map r_id (regions s)) (next_region_id s) (map r_id (regions s'))
      (next_region_id s')
    \<and> map o_id (overflow_regions s') = map o_id (overflow_regions s)
    \<and> next_overflow_id s' = next_overflow_id s"
  using create_region_step [where s = s and env = env and sz = sz] assms by simp

lemma create_overflow_region_stepD:
  assumes "create_overflow_region env s = (r, s')"
  shows "ids_step (map o_id (overflow_regions s)) (next_overflow_id s)
      (map o_id (overflow_regions s')) (next_overflow_id s')
    \<and> map r_id (regions s') = map r_id (regions s)
    \<and> next_region_id s' = next_region_id s"
  using create_overflow_region_step [where s = s and env = env] assms by simp

lemma ids_step_refl [simp]: "ids_step ids next ids next"
  by (simp add: ids_step_def)

lemma init_step:
  "data_step s (snd (init env session_name initial_size s))"
  "overflow_step s (snd (init env session_name initial_size s))"
  by (auto simp: data_step_def overflow_step_def init_def Let_def
      split: option.splits prod.splits dest: create_region_stepD)

lemma metadata_init_step:
  "data_step s (snd (metadata_init session_name s))"
  "overflow_step s (snd (metadata_init session_name s))"
  by (simp_all add: data_step_def overflow_step_def metadata_init_def)

lemma allocate_step:
  "data_step s (snd (allocate env sz alignment s))"
  "overflow_step s (snd (allocate env sz alignment s))"
  by (auto simp: data_step_def overflow_step_def allocate_def bump_sequence_def Let_def
      split: option.splits prod.splits dest: create_region_stepD)

lemma object_entry_new_region_step:
  "data_step s (snd (object_entry_new_region env s))"
  "overflow_step s (snd (object_entry_new_region env s))"
  by (auto simp: data_step_def overflow_step_def object_entry_new_region_def
      split: option.splits prod.splits dest: create_overflow_region_stepD)

lemma type_entry_new_region_step:
  "data_step s (snd (type_entry_new_region env s))"
  "overflow_step s (snd (type_entry_new_region env s))"
  by (auto simp: data_step_def overflow_step_def type_entry_new_region_def
      split: option.splits prod.splits dest: create_overflow_region_stepD)

lemma field_entries_new_region_step:
  "data_step s (snd (field_entries_new_region env n s))"
  "overflow_step s (snd (field_entries_new_region env n s))"
  by (auto simp: data_step_def overflow_step_def field_entries_new_region_def
      split: option.splits prod.splits dest: create_overflow_region_stepD)

lemma allocate_object_entry_step:
  "data_step s (snd (allocate_object_entry env s))"
  "overflow_step s (snd (allocate_object_entry env s))"
  using object_entry_new_region_step [where s = s and env = env]
  by (auto simp: allocate_object_entry_def Let_def data_step_def overflow_step_def
      split: option.splits)

lemma allocate_type_entry_step:
  "data_step s (snd (allocate_type_entry env s))"
  "overflow_step s (snd (allocate_type_entry env s))"
  using type_entry_new_region_step [where s = s and env = env]
  by (auto simp: allocate_type_entry_def Let_def data_step_def overflow_step_def
      split: option.splits)

lemma allocate_field_entries_step:
  "data_step s (snd (allocate_field_entries env n s))"
  "overflow_step s (snd (allocate_field_entries env n s))"
  using field_entries_new_region_step [where s = s and env = env and n = n]
  by (auto simp: allocate_field_entries_def Let_def data_step_def overflow_step_def
      split: option.splits)

lemma run_writes_chains [simp]:
  "regions (run_writes (initialize_entry env entry type_id region_id offset label) s) = regions s"
  "next_region_id (run_writes (initialize_entry env entry type_id region_id offset label) s)
     = next_region_id s"
  "overflow_regions (run_writes (initialize_entry env entry type_id region_id offset label) s)
     = overflow_regions s"
  "next_overflow_id (run_writes (initialize_entry env entry type_id region_id offset label) s)
     = next_overflow_id s"
  by (simp_all add: run_writes_def initialize_entry_def write_entry_def)

lemma register_object_step:
  "data_step s (snd (register_object env p type_id label s))"
  "overflow_step s (snd (register_object env p type_id label s))"
  using allocate_object_entry_step [where s = s and env = env]
  by (auto simp: register_object_def Let_def data_step_def overflow_step_def bump_sequence_def
      split: option.splits prod.splits)

lemma destroy_object_step:
  "data_step s (destroy_object p s)"
  "overflow_step s (destroy_object p s)"
  by (auto simp: destroy_object_def Let_def data_step_def overflow_step_def bump_sequence_def
      write_entry_def split: option.splits)

lemma apply_operation_step:
  "data_step s (apply_operation env operation s)"
  "overflow_step s (apply_operation env operation s)"
  by (cases operation; simp add: init_step metadata_init_step allocate_step
      allocate_object_entry_step allocate_type_entry_step allocate_field_entries_step
      register_object_step destroy_object_step)+


lemma run_Cons: "run env (operation # ops) s = run env ops (apply_operation env operation s)"
  by (simp add: run_def)

lemma run_ids_ordered:
  assumes "ids_ordered (map r_id (regions s)) (next_region_id s)"
    and "ids_ordered (map o_id (overflow_regions s)) (next_overflow_id s)"
    and "unat (next_region_id s) + length ops < 2 ^ 64"
    and "unat (next_overflow_id s) + length ops < 2 ^ 64"
  shows "ids_ordered (map r_id (regions (run env ops s))) (next_region_id (run env ops s))
    \<and> ids_ordered (map o_id (overflow_regions (run env ops s))) (next_overflow_id (run env ops s))"
  using assms
proof (induction ops arbitrary: s)
  case Nil
  then show ?case
    by (simp add: run_def)
next
  case (Cons operation ops)
  let ?s' = "apply_operation env operation s"
  have data: "unat (next_region_id s) + 1 < 2 ^ 64"
    and overflow: "unat (next_overflow_id s) + 1 < 2 ^ 64"
    using Cons.prems by simp_all
  note d = ids_ordered_step [OF Cons.prems(1) apply_operation_step(1) [unfolded data_step_def] data]
  note e = ids_ordered_step
    [OF Cons.prems(2) apply_operation_step(2) [unfolded overflow_step_def] overflow]
  have "unat (next_region_id ?s') + length ops < 2 ^ 64"
    using d(2) [of env operation] Cons.prems(3) by simp
  moreover have "unat (next_overflow_id ?s') + length ops < 2 ^ 64"
    using e(2) [of env operation] Cons.prems(4) by simp
  ultimately show ?case
    using Cons.IH [of ?s'] d(1) [of env operation] e(1) [of env operation]
    by (simp add: run_Cons)
qed

text \<open>
  Claim C9, as the code has it. In every state reached from the fresh producer by
  calls of the managers, the ids of the data regions are distinct, increase strictly in
  creation order, and are at least 1; they are \<open>1, 2, \<dots>, n\<close> as long as every id
  taken belongs to a region, that is, no creation has failed. The same holds for the
  ids of the overflow regions, which come from a counter of their own. (The bound on
  the number of calls keeps the 64-bit counters from wrapping around.)
\<close>

theorem region_ids_increase_within_each_kind:
  "s = run env ops (initial_state env object_capacity type_capacity field_capacity memory)
     \<and> length ops + 1 < 2 ^ 64 \<longrightarrow>
   sorted_wrt (<) (map r_id (regions s)) \<and> distinct (map r_id (regions s))
   \<and> (\<forall>r \<in> set (regions s). 1 \<le> r_id r \<and> r_id r < next_region_id s)
   \<and> (unat (next_region_id s) = Suc (length (regions s))
        \<longrightarrow> map r_id (regions s) = map of_nat [1..<Suc (length (regions s))])
   \<and> sorted_wrt (<) (map o_id (overflow_regions s)) \<and> distinct (map o_id (overflow_regions s))
   \<and> (\<forall>r \<in> set (overflow_regions s). 1 \<le> o_id r \<and> o_id r < next_overflow_id s)
   \<and> (unat (next_overflow_id s) = Suc (length (overflow_regions s))
        \<longrightarrow> map o_id (overflow_regions s) = map of_nat [1..<Suc (length (overflow_regions s))])"
proof (intro impI; elim conjE)
  let ?s0 = "initial_state env object_capacity type_capacity field_capacity memory"
  assume s: "s = run env ops ?s0" and bound: "length ops + 1 < 2 ^ 64"
  have "ids_ordered (map r_id (regions ?s0)) (next_region_id ?s0)"
    and "ids_ordered (map o_id (overflow_regions ?s0)) (next_overflow_id ?s0)"
    by (simp_all add: initial_state_def ids_ordered_start)
  moreover have "unat (next_region_id ?s0) + length ops < 2 ^ 64"
    and "unat (next_overflow_id ?s0) + length ops < 2 ^ 64"
    using bound by (simp_all add: initial_state_def)
  ultimately have "ids_ordered (map r_id (regions s)) (next_region_id s)"
    and "ids_ordered (map o_id (overflow_regions s)) (next_overflow_id s)"
    using run_ids_ordered [of ?s0 ops env] by (simp_all add: s)
  then show "sorted_wrt (<) (map r_id (regions s)) \<and> distinct (map r_id (regions s))
   \<and> (\<forall>r \<in> set (regions s). 1 \<le> r_id r \<and> r_id r < next_region_id s)
   \<and> (unat (next_region_id s) = Suc (length (regions s))
        \<longrightarrow> map r_id (regions s) = map of_nat [1..<Suc (length (regions s))])
   \<and> sorted_wrt (<) (map o_id (overflow_regions s)) \<and> distinct (map o_id (overflow_regions s))
   \<and> (\<forall>r \<in> set (overflow_regions s). 1 \<le> o_id r \<and> o_id r < next_overflow_id s)
   \<and> (unat (next_overflow_id s) = Suc (length (overflow_regions s))
        \<longrightarrow> map o_id (overflow_regions s) = map of_nat [1..<Suc (length (overflow_regions s))])"
    unfolding ids_ordered_def by (simp add: strict_sorted_iff)
qed

text \<open>
  The concrete session after \<open>demo_operations\<close>: data regions 1 and 2 and overflow
  region 1.
\<close>

theorem region_ids_increase_within_each_kind_witness:
  "length demo_operations + 1 < (2::nat) ^ 64
   \<and> map r_id (regions (run (demo_env demo_config) demo_operations
         (initial_state (demo_env demo_config) 1 1 1 (\<lambda>_. zero_entry)))) = [1, 2]
   \<and> map o_id (overflow_regions (run (demo_env demo_config) demo_operations
         (initial_state (demo_env demo_config) 1 1 1 (\<lambda>_. zero_entry)))) = [1]"
proof -
  let ?s = "run (demo_env demo_config) demo_operations
      (initial_state (demo_env demo_config) 1 1 1 (\<lambda>_. zero_entry))"
  have bound: "length demo_operations + 1 < (2::nat) ^ 64"
    by (simp add: demo_defs)
  have counters: "unat (next_region_id ?s) = 3" "length (regions ?s) = 2"
    "unat (next_overflow_id ?s) = 2" "length (overflow_regions ?s) = 1"
    by (simp_all add: run_def demo_defs manager_defs)
  have "map r_id (regions ?s) = map of_nat [1..<Suc (length (regions ?s))]"
    and "map o_id (overflow_regions ?s) = map of_nat [1..<Suc (length (overflow_regions ?s))]"
    using region_ids_increase_within_each_kind
      [where s = ?s and env = "demo_env demo_config" and ops = demo_operations
        and object_capacity = 1 and type_capacity = 1 and field_capacity = 1
        and memory = "\<lambda>_. zero_entry"]
      bound counters
    by simp_all
  then have "map r_id (regions ?s) = [1, 2]" and "map o_id (overflow_regions ?s) = [1]"
    by (simp_all add: counters upt_rec)
  with bound show ?thesis
    by simp
qed

text \<open>
  Claim C9 as stated fails across the two kinds: in the session with two objects the
  data region \<^verbatim>\<open>mg.demo.r.1\<close> and the overflow region \<^verbatim>\<open>mg.demo.o.1\<close> both have id 1.
\<close>

theorem data_and_overflow_region_share_id_counterexample:
  "map r_id (regions demo_two_objects) = [1]
   \<and> map o_id (overflow_regions demo_two_objects) = [1]
   \<and> map (\<lambda>r. rd_shm_name (r_descriptor r)) (regions demo_two_objects) = [''mg.demo.r.1'']
   \<and> map (\<lambda>r. mo_shm_name (o_descriptor r)) (overflow_regions demo_two_objects)
       = [''mg.demo.o.1'']
   \<and> r_id (last (regions demo_two_objects)) = o_id (last (overflow_regions demo_two_objects))"
  by (simp add: demo_defs manager_defs)

end
